theory Spec2Isabelle
  imports Main "HOL-Library.Sublist"
begin

section \<open>JavaScript strings\<close>

text \<open>
  A name is a list of code units. The development covers code units below 256
  (HOL's \<open>char\<close>); every concrete input used below is plain ASCII.
\<close>

definition isWordChar :: "char \<Rightarrow> bool" where
  \<comment> \<open>the regular-expression class \<open>\w\<close>, that is \<open>[A-Za-z0-9_]\<close>\<close>
  "isWordChar c =
     (let n = (of_char c :: nat)
      in (65 \<le> n \<and> n \<le> 90) \<or> (97 \<le> n \<and> n \<le> 122) \<or> (48 \<le> n \<and> n \<le> 57) \<or> n = 95)"

definition isDigit :: "char \<Rightarrow> bool" where
  \<comment> \<open>the class \<open>\d\<close>\<close>
  "isDigit c = (let n = (of_char c :: nat) in 48 \<le> n \<and> n \<le> 57)"

definition isSpace :: "char \<Rightarrow> bool" where
  \<comment> \<open>the class \<open>\s\<close>, also what \<open>trim\<close> removes: TAB, LF, VT, FF, CR, SP, NBSP\<close>
  "isSpace c = (let n = (of_char c :: nat) in (9 \<le> n \<and> n \<le> 13) \<or> n = 32 \<or> n = 160)"

definition toLowerChar :: "char \<Rightarrow> char" where
  \<comment> \<open>\<open>toLowerCase\<close> on one code unit: A-Z and the capital letters 0xC0-0xDE but 0xD7\<close>
  "toLowerChar c =
     (let n = (of_char c :: nat)
      in if (65 \<le> n \<and> n \<le> 90) \<or> (192 \<le> n \<and> n \<le> 222 \<and> n \<noteq> 215)
         then char_of (n + 32) else c)"

definition toLowerCase :: "string \<Rightarrow> string" where
  "toLowerCase s = map toLowerChar s"

definition canonicalize :: "char \<Rightarrow> char" where
  \<comment> \<open>case folding of the \<open>i\<close> flag: a code unit from 128 on never folds onto ASCII, and
      every pattern of the source under that flag is ASCII\<close>
  "canonicalize c =
     (let n = (of_char c :: nat) in if 65 \<le> n \<and> n \<le> 90 then char_of (n + 32) else c)"

definition startsWith :: "string \<Rightarrow> string \<Rightarrow> bool" where
  "startsWith s p = (take (length p) s = p)"

fun includesStr :: "string \<Rightarrow> string \<Rightarrow> bool" where
  "includesStr [] p = (p = [])"
| "includesStr (c # cs) p = (startsWith (c # cs) p \<or> includesStr cs p)"

fun lastIndexOfFrom :: "char \<Rightarrow> string \<Rightarrow> int \<Rightarrow> int \<Rightarrow> int" where
  "lastIndexOfFrom c [] i found = found"
| "lastIndexOfFrom c (x # xs) i found =
     lastIndexOfFrom c xs (i + 1) (if x = c then i else found)"

definition lastIndexOf :: "string \<Rightarrow> char \<Rightarrow> int" where
  \<comment> \<open>the index of the last occurrence, \<open>-1\<close> when there is none\<close>
  "lastIndexOf s c = lastIndexOfFrom c s 0 (- 1)"

definition clampIndex :: "string \<Rightarrow> int \<Rightarrow> nat" where
  \<comment> \<open>\<open>substring\<close> clamps each index to \<open>[0, length]\<close>\<close>
  "clampIndex s i = (if i < 0 then 0 else min (nat i) (length s))"

definition substring :: "string \<Rightarrow> int \<Rightarrow> int \<Rightarrow> string" where
  \<comment> \<open>\<open>s.substring(a, b)\<close>: clamped indices, swapped when \<open>a > b\<close>\<close>
  "substring s a b =
     (let a' = clampIndex s a; b' = clampIndex s b; lo = min a' b'; hi = max a' b'
      in take (hi - lo) (drop lo s))"

definition substringFrom :: "string \<Rightarrow> int \<Rightarrow> string" where
  \<comment> \<open>\<open>s.substring(a)\<close>\<close>
  "substringFrom s a = drop (clampIndex s a) s"

section \<open>The client: sanitizeFileName\<close>

fun removeDotDot :: "string \<Rightarrow> string" where
  \<comment> \<open>\<open>replace(/\.\./g, '')\<close>: the matches are taken left to right and do not overlap\<close>
  "removeDotDot (a # b # cs) =
     (if a = CHR ''.'' \<and> b = CHR ''.'' then removeDotDot cs else a # removeDotDot (b # cs))"
| "removeDotDot cs = cs"

definition isSafeChar :: "char \<Rightarrow> bool" where
  \<comment> \<open>the class \<open>[a-zA-Z0-9._-]\<close>\<close>
  "isSafeChar c =
     (let n = (of_char c :: nat)
      in (97 \<le> n \<and> n \<le> 122) \<or> (65 \<le> n \<and> n \<le> 90) \<or> (48 \<le> n \<and> n \<le> 57)
         \<or> c = CHR ''.'' \<or> c = CHR ''_'' \<or> c = CHR ''-'')"

definition replaceUnsafe :: "string \<Rightarrow> string" where
  \<comment> \<open>\<open>replace(/[^a-zA-Z0-9._-]/g, '_')\<close>\<close>
  "replaceUnsafe s = map (\<lambda>c. if isSafeChar c then c else CHR ''_'') s"

definition prefixHidden :: "string \<Rightarrow> string" where
  "prefixHidden s = (if startsWith s ''.'' then ''file_'' @ s else s)"

definition limitLength :: "string \<Rightarrow> string" where
  "limitLength s =
     (if length s > 200
      then (let ext = substringFrom s (lastIndexOf s CHR ''.'')
            in substring s 0 (200 - int (length ext)) @ ext)
      else s)"

definition sanitizeFileName :: "string \<Rightarrow> string" where
  "sanitizeFileName fileName = limitLength (prefixHidden (replaceUnsafe (removeDotDot fileName)))"

definition cleaned :: "string \<Rightarrow> string" where
  \<comment> \<open>the name as it stands before the length limit\<close>
  "cleaned x = prefixHidden (replaceUnsafe (removeDotDot x))"

definition hasDotDot :: "string \<Rightarrow> bool" where
  "hasDotDot s = includesStr s ''..''"

section \<open>The client: validateFile and onDrop\<close>

record jsfile =
  file_name :: string
  file_size :: nat
  file_type :: string

definition MAX_FILE_SIZE :: nat where
  "MAX_FILE_SIZE = 50 * 1024 * 1024"

definition MIN_FILE_SIZE :: nat where
  "MIN_FILE_SIZE = 1024"

definition ALLOWED_EXTENSIONS :: "string list" where
  "ALLOWED_EXTENSIONS = [''.xlsx'', ''.xls'']"

definition validMimeTypes :: "string list" where
  "validMimeTypes =
     [''application/vnd.openxmlformats-officedocument.spreadsheetml.sheet'',
      ''application/vnd.ms-excel'']"

text \<open>
  One constructor for each message \<open>validateFile\<close> can push, carrying the values the
  message interpolates.
\<close>

datatype submission_error =
    FileTooLarge nat
  | FileTooSmall nat
  | InvalidCharacters
  | NameTooLong
  | MaliciousContent
  | InvalidFileType string
  | MultipleExtensions
  | HiddenFile
  | MimeMismatch

definition isInvalidChar :: "char \<Rightarrow> bool" where
  \<comment> \<open>the class \<open>[\x00-\x1F\x7F<>:"|?*]\<close>\<close>
  "isInvalidChar c =
     (let n = (of_char c :: nat)
      in n \<le> 31 \<or> n = 127 \<or> c = CHR ''<'' \<or> c = CHR ''>'' \<or> c = CHR '':''
         \<or> n = 34 \<or> c = CHR ''|'' \<or> c = CHR ''?'' \<or> c = CHR ''*'')"

definition scriptPattern :: "string \<Rightarrow> bool" where
  \<comment> \<open>\<open>/<script|javascript:|onerror=|onload=/i.test\<close>\<close>
  "scriptPattern s =
     (let t = map canonicalize s
      in includesStr t ''<script'' \<or> includesStr t ''javascript:''
         \<or> includesStr t ''onerror='' \<or> includesStr t ''onload='')"

definition validateFile :: "jsfile \<Rightarrow> submission_error list" where
  "validateFile file =
     (let fileName = file_name file;
          fileExtension = toLowerCase (substringFrom fileName (lastIndexOf fileName CHR ''.''));
          extensionCount = length (filter (\<lambda>c. c = CHR ''.'') fileName)
      in (if file_size file > MAX_FILE_SIZE then [FileTooLarge (file_size file)] else [])
       @ (if file_size file < MIN_FILE_SIZE then [FileTooSmall (file_size file)] else [])
       @ (if list_ex isInvalidChar fileName then [InvalidCharacters] else [])
       @ (if length fileName > 255 then [NameTooLong] else [])
       @ (if scriptPattern fileName then [MaliciousContent] else [])
       @ (if fileExtension \<notin> set ALLOWED_EXTENSIONS then [InvalidFileType fileExtension]
          else [])
       @ (if extensionCount > 1 then [MultipleExtensions] else [])
       @ (if startsWith fileName ''.'' then [HiddenFile] else [])
       @ (if file_type file \<notin> set validMimeTypes \<and> file_type file \<noteq> []
          then [MimeMismatch] else []))"

fun isSizeError :: "submission_error \<Rightarrow> bool" where
  "isSizeError (FileTooLarge n) = True"
| "isSizeError (FileTooSmall n) = True"
| "isSizeError e = False"

text \<open>
  The body of \<open>acceptedFiles.forEach\<close>: either the callback returns with the error list
  (\<open>Inl\<close>), or it goes on to \<open>fetch\<close> and posts \<open>fileToUpload\<close> (\<open>Inr\<close>).
\<close>

definition onDropFile :: "jsfile \<Rightarrow> submission_error list + jsfile" where
  "onDropFile file =
     (let validationErrorsList = validateFile file
      in if length validationErrorsList > 0 then Inl validationErrorsList
         else (let sanitizedFileName = sanitizeFileName (file_name file);
                   fileToUpload = (if sanitizedFileName \<noteq> file_name file
                                   then file\<lparr>file_name := sanitizedFileName\<rparr> else file)
               in Inr fileToUpload))"

fun posted :: "(submission_error list + jsfile) list \<Rightarrow> jsfile list" where
  "posted [] = []"
| "posted (Inl errs # rs) = posted rs"
| "posted (Inr f # rs) = f # posted rs"

definition onDrop :: "jsfile list \<Rightarrow> 'r list \<Rightarrow> jsfile list" where
  \<comment> \<open>the files posted to \<open>/upload\<close> by one drop\<close>
  "onDrop acceptedFiles rejectedFiles =
     (if length rejectedFiles > 0 then []
      else if length acceptedFiles = 0 then []
      else posted (map onDropFile acceptedFiles))"

section \<open>The server: validateExcelFile\<close>

definition REQUIRED_COLUMNS :: "string list" where
  "REQUIRED_COLUMNS =
     [''barangay'', ''lat'', ''lng'', ''datecommitted'', ''timecommitted'', ''offensetype'']"

definition SEVERITY_CALC_COLUMNS :: "string list" where
  "SEVERITY_CALC_COLUMNS =
     [''victimcount'', ''suspectcount'', ''victiminjured'', ''victimkilled'',
      ''victimunharmed'', ''suspectkilled'']"

definition ALL_REQUIRED_COLUMNS :: "string list" where
  "ALL_REQUIRED_COLUMNS = REQUIRED_COLUMNS @ SEVERITY_CALC_COLUMNS"

text \<open>
  What \<open>XLSX.readFile\<close> hands back: it throws, or it returns a workbook, the list
  \<open>SheetNames\<close> and the table \<open>Sheets\<close> from names to worksheets. A worksheet is taken as
  the rows \<open>sheet_to_json\<close> with \<open>header: 1\<close> makes of it, each cell as \<open>String\<close> renders it.

  The \<open>catch\<close> block calls \<open>error.message.includes\<close>. A thrown \<open>Error\<close> object has a message
  string; for any other thrown value (a string, for one) \<open>error.message\<close> is not a string and
  the call raises a \<open>TypeError\<close> inside the \<open>catch\<close> block, which leaves the function.
\<close>

type_synonym rows = "string list list"

record workbook =
  SheetNames :: "string list"
  Sheets :: "(string \<times> rows) list"

datatype thrown = WithMessage string | WithoutMessage

datatype read_result = Throws thrown | Opened workbook

datatype crash = TypeError

text \<open>One constructor for each message the validator can push.\<close>

datatype structural_error =
    NoSheets
  | YearMissing string
  | SheetEmpty string
  | MissingBasic string "string list"
  | MissingSeverity string "string list"
  | NoDataRows string
  | Corrupted
  | FileNotFound
  | Unreadable

record validation =
  valid :: bool
  errors :: "structural_error list"

definition sheet_to_json :: "workbook \<Rightarrow> string \<Rightarrow> rows" where
  \<comment> \<open>a name with no worksheet behind it gives no rows\<close>
  "sheet_to_json wb sheetName =
     (case map_of (Sheets wb) sheetName of None \<Rightarrow> [] | Some r \<Rightarrow> r)"

subsection \<open>The year pattern\<close>

definition wordAt :: "string \<Rightarrow> int \<Rightarrow> bool" where
  \<comment> \<open>is there a word character at this index (none outside the string)\<close>
  "wordAt s i = (0 \<le> i \<and> i < int (length s) \<and> isWordChar (s ! nat i))"

definition wordBoundary :: "string \<Rightarrow> nat \<Rightarrow> bool" where
  \<comment> \<open>the assertion \<open>\b\<close> before index \<open>i\<close>\<close>
  "wordBoundary s i = (wordAt s (int i - 1) \<noteq> wordAt s (int i))"

definition centuryThenDigits :: "string \<Rightarrow> bool" where
  \<comment> \<open>\<open>(19|20)\d{2}\<close> on exactly four code units\<close>
  "centuryThenDigits t =
     (case t of
        [a, b, c, d] \<Rightarrow>
          ((a = CHR ''1'' \<and> b = CHR ''9'') \<or> (a = CHR ''2'' \<and> b = CHR ''0''))
          \<and> isDigit c \<and> isDigit d
      | _ \<Rightarrow> False)"

definition yearMatchAt :: "string \<Rightarrow> nat \<Rightarrow> bool" where
  "yearMatchAt s i =
     (wordBoundary s i \<and> centuryThenDigits (take 4 (drop i s)) \<and> wordBoundary s (i + 4))"

definition yearRegex :: "string \<Rightarrow> bool" where
  \<comment> \<open>whether \<open>sheetName.match(/\b(19|20)\d{2}\b/)\<close> is not null\<close>
  "yearRegex s = list_ex (yearMatchAt s) [0..<length s]"

definition containsYear :: "string \<Rightarrow> bool" where
  \<comment> \<open>the specification's reading: some four consecutive code units spell a year from
      1900 to 2099\<close>
  "containsYear s = list_ex (\<lambda>i. centuryThenDigits (take 4 (drop i s))) [0..<length s]"

subsection \<open>Header cells\<close>

definition trim :: "string \<Rightarrow> string" where
  "trim s = rev (dropWhile isSpace (rev (dropWhile isSpace s)))"

function collapseSpaces :: "string \<Rightarrow> string" where
  \<comment> \<open>\<open>replace(/\s+/g, '_')\<close>: every maximal run of white space becomes one underscore\<close>
  "collapseSpaces [] = []"
| "collapseSpaces (c # cs) =
     (if isSpace c then CHR ''_'' # collapseSpaces (dropWhile isSpace cs)
      else c # collapseSpaces cs)"
  by pat_completeness auto
termination
  by (relation "measure length") (auto simp: length_dropWhile_le less_Suc_eq_le)

definition stripNonWord :: "string \<Rightarrow> string" where
  \<comment> \<open>\<open>replace(/[^\w]/g, '')\<close>\<close>
  "stripNonWord s = filter isWordChar s"

definition normalizeHeader :: "string \<Rightarrow> string" where
  "normalizeHeader h = stripNonWord (collapseSpaces (toLowerCase (trim h)))"

definition columnFound :: "string list \<Rightarrow> string \<Rightarrow> bool" where
  "columnFound normalizedHeaders col =
     (let normalizedCol = toLowerCase (filter (\<lambda>c. c \<noteq> CHR ''_'') col)
      in list_ex (\<lambda>header.
           (let normalizedHeader = toLowerCase header
            in if normalizedHeader = normalizedCol then True
               else (let colWithUnderscore = toLowerCase col
                     in if normalizedHeader = colWithUnderscore then True else False)))
         normalizedHeaders)"

subsection \<open>One sheet, then the workbook\<close>

definition columnErrors :: "string \<Rightarrow> string list \<Rightarrow> structural_error list" where
  "columnErrors sheetName headers =
     (let normalizedHeaders = map normalizeHeader headers;
          missingColumns = filter (\<lambda>col. \<not> columnFound normalizedHeaders col) ALL_REQUIRED_COLUMNS
      in if length missingColumns > 0
         then (let missingBasic = filter (\<lambda>col. col \<in> set REQUIRED_COLUMNS) missingColumns;
                   missingSeverity = filter (\<lambda>col. col \<in> set SEVERITY_CALC_COLUMNS) missingColumns
               in (if length missingBasic > 0 then [MissingBasic sheetName missingBasic] else [])
                @ (if length missingSeverity > 0 then [MissingSeverity sheetName missingSeverity]
                   else []))
         else [])"

definition validateSheet :: "workbook \<Rightarrow> string \<Rightarrow> structural_error list" where
  \<comment> \<open>what one call of the \<open>forEach\<close> callback pushes, in order\<close>
  "validateSheet wb sheetName =
     (let yearErrors = (if \<not> yearRegex sheetName then [YearMissing sheetName] else []);
          jsonData = sheet_to_json wb sheetName
      in case jsonData of
           [] \<Rightarrow> yearErrors @ [SheetEmpty sheetName]
         | headers # dataRows \<Rightarrow>
             yearErrors @ columnErrors sheetName headers
             @ (if length jsonData < 2 then [NoDataRows sheetName] else []))"

definition readFailure :: "string \<Rightarrow> structural_error" where
  \<comment> \<open>the \<open>catch\<close> branch\<close>
  "readFailure message =
     (if includesStr message ''Unsupported file'' then Corrupted
      else if includesStr message ''ENOENT'' \<or> includesStr message ''no such file''
      then FileNotFound
      else Unreadable)"

definition validateExcelFile :: "read_result \<Rightarrow> crash + validation" where
  \<comment> \<open>\<open>Inl\<close>: the function is left by an exception; \<open>Inr\<close>: it returns\<close>
  "validateExcelFile r =
     (case r of
        Throws (WithMessage message) \<Rightarrow> Inr \<lparr>valid = False, errors = [readFailure message]\<rparr>
      | Throws WithoutMessage \<Rightarrow> Inl TypeError
      | Opened wb \<Rightarrow>
          if length (SheetNames wb) = 0 then Inr \<lparr>valid = False, errors = [NoSheets]\<rparr>
          else (let errs = concat (map (validateSheet wb) (SheetNames wb))
                in if length errs = 0 then Inr \<lparr>valid = True, errors = []\<rparr>
                   else Inr \<lparr>valid = False, errors = errs\<rparr>))"

fun isYearError :: "structural_error \<Rightarrow> bool" where
  "isYearError (YearMissing n) = True"
| "isYearError e = False"




section \<open>The server: the pipeline\<close>

record pipeline_state =
  isProcessing :: bool
  processingStartTime :: "int option"
  processingError :: "string option"

definition idle :: pipeline_state where
  \<comment> \<open>the three globals as the module initialises them\<close>
  "idle = \<lparr>isProcessing = False, processingStartTime = None, processingError = None\<rparr>"

subsection \<open>Paths and numbers in messages\<close>

definition path_join :: "string \<Rightarrow> string \<Rightarrow> string" where
  \<comment> \<open>\<open>path.join\<close> of a directory and one more segment, where nothing needs normalizing\<close>
  "path_join dir file = dir @ ''/'' @ file"

definition basename :: "string \<Rightarrow> string" where
  \<comment> \<open>what follows the last separator\<close>
  "basename p = substringFrom p (lastIndexOf p CHR ''/'' + 1)"

definition digitChar :: "nat \<Rightarrow> char" where
  "digitChar d = char_of (48 + d)"

function showNat :: "nat \<Rightarrow> string" where
  "showNat n = (if n < 10 then [digitChar n] else showNat (n div 10) @ [digitChar (n mod 10)])"
  by pat_completeness auto
termination
  by (relation "measure id") auto

definition showCode :: "int option \<Rightarrow> string" where
  \<comment> \<open>the exit code inside a template literal; it is \<open>null\<close> when a signal ended the process\<close>
  "showCode code =
     (case code of
        None \<Rightarrow> ''null''
      | Some i \<Rightarrow> if i < 0 then CHR ''-'' # showNat (nat (- i)) else showNat (nat i))"

definition readNat :: "string \<Rightarrow> nat" where
  \<comment> \<open>the number a string of decimal digits spells, to say what \<open>showNat\<close> writes\<close>
  "readNat s = foldl (\<lambda>a c. 10 * a + (of_char c - 48)) 0 s"

subsection \<open>runSingleScript\<close>

text \<open>
  A child process reports through events; \<open>runSingleScript\<close> registers one handler for
  \<open>close\<close> (with the exit code) and one for \<open>error\<close> (with the error's message). The
  environment tells, for each script path, the events its process emits, in order: none
  for a process that hangs, \<open>[Close (Some 0)]\<close> for a clean exit. The world is the three
  globals and the list of scripts spawned so far.
\<close>

datatype event = Close "int option" | Error string

record world =
  globals :: pipeline_state
  spawned :: "string list"

definition exitMessage :: "string \<Rightarrow> int option \<Rightarrow> string" where
  "exitMessage scriptPath code =
     ''Script '' @ basename scriptPath @ '' failed with exit code '' @ showCode code"

definition startMessage :: "string \<Rightarrow> string \<Rightarrow> string" where
  "startMessage scriptPath message = ''Failed to start '' @ basename scriptPath @ '': '' @ message"

definition closeFailed :: "string \<Rightarrow> int option \<Rightarrow> pipeline_state \<Rightarrow> pipeline_state" where
  "closeFailed scriptPath code s =
     s\<lparr>isProcessing := False, processingError := Some (exitMessage scriptPath code)\<rparr>"

definition startFailed :: "string \<Rightarrow> string \<Rightarrow> pipeline_state \<Rightarrow> pipeline_state" where
  "startFailed scriptPath message s =
     s\<lparr>isProcessing := False, processingError := Some (startMessage scriptPath message)\<rparr>"

fun on_event :: "string \<Rightarrow> (world \<Rightarrow> world) \<Rightarrow> event \<Rightarrow> world \<Rightarrow> world" where
  "on_event scriptPath onSuccess (Close code) w =
     (if code = Some 0 then onSuccess w
      else w\<lparr>globals := closeFailed scriptPath code (globals w)\<rparr>)"
| "on_event scriptPath onSuccess (Error message) w =
     w\<lparr>globals := startFailed scriptPath message (globals w)\<rparr>"

fun failureMessage :: "string \<Rightarrow> event \<Rightarrow> string" where
  \<comment> \<open>the message a handler records for an event other than a clean exit\<close>
  "failureMessage scriptPath (Close code) = exitMessage scriptPath code"
| "failureMessage scriptPath (Error message) = startMessage scriptPath message"

definition runSingleScript ::
  "(string \<Rightarrow> event list) \<Rightarrow> string \<Rightarrow> (world \<Rightarrow> world) \<Rightarrow> world \<Rightarrow> world" where
  "runSingleScript env scriptPath onSuccess w =
     fold (on_event scriptPath onSuccess) (env scriptPath)
       (w\<lparr>spawned := spawned w @ [scriptPath]\<rparr>)"

subsection \<open>runPythonScripts\<close>

definition startRun :: "int \<Rightarrow> pipeline_state \<Rightarrow> pipeline_state" where
  "startRun now s =
     s\<lparr>isProcessing := True, processingStartTime := Some now, processingError := None\<rparr>"

definition allDone :: "pipeline_state \<Rightarrow> pipeline_state" where
  "allDone s = s\<lparr>isProcessing := False\<rparr>"

definition stageNames :: "string list" where
  \<comment> \<open>the file names handed to \<open>path.join\<close>, in the order the stages run\<close>
  "stageNames =
     [''cleaning2.py'', ''cleanup_files.py'', ''export_geojson.py'', ''cluster_hdbscan.py'',
      ''mobile_cluster_fetch.py'']"

definition script1 :: "string \<Rightarrow> string" where
  "script1 cwd = path_join cwd ''cleaning2.py''"

definition script2 :: "string \<Rightarrow> string" where
  "script2 cwd = path_join cwd ''export_geojson.py''"

definition script3 :: "string \<Rightarrow> string" where
  "script3 cwd = path_join cwd ''cluster_hdbscan.py''"

definition cleanupScript :: "string \<Rightarrow> string" where
  "cleanupScript cwd = path_join cwd ''cleanup_files.py''"

definition uploadScript :: "string \<Rightarrow> string" where
  "uploadScript cwd = path_join cwd ''mobile_cluster_fetch.py''"

definition runPythonScripts :: "(string \<Rightarrow> event list) \<Rightarrow> string \<Rightarrow> int \<Rightarrow> world \<Rightarrow> world" where
  "runPythonScripts env cwd now w =
     runSingleScript env (script1 cwd) (\<lambda>w.
       runSingleScript env (cleanupScript cwd) (\<lambda>w.
         runSingleScript env (script2 cwd) (\<lambda>w.
           runSingleScript env (script3 cwd) (\<lambda>w.
             runSingleScript env (uploadScript cwd) (\<lambda>w.
               w\<lparr>globals := allDone (globals w)\<rparr>) w) w) w) w)
       (w\<lparr>globals := startRun now (globals w)\<rparr>)"

text \<open>The stages in the order the callbacks nest them, and the same chain over a list.\<close>

definition stages :: "string \<Rightarrow> string list" where
  "stages cwd = [script1 cwd, cleanupScript cwd, script2 cwd, script3 cwd, uploadScript cwd]"

fun runChain :: "(string \<Rightarrow> event list) \<Rightarrow> string list \<Rightarrow> world \<Rightarrow> world" where
  "runChain env [] w = w\<lparr>globals := allDone (globals w)\<rparr>"
| "runChain env (p # ps) w = runSingleScript env p (runChain env ps) w"

subsection \<open>The status route\<close>

record status_response =
  r_isProcessing :: bool
  r_processingTime :: int
  r_processingStartTime :: "int option"
  r_processingError :: "string option"
  r_status :: string

definition truthy :: "string option \<Rightarrow> bool" where
  \<comment> \<open>\<open>null\<close> and the empty string are falsy\<close>
  "truthy v = (case v of None \<Rightarrow> False | Some s \<Rightarrow> s \<noteq> [])"

definition getStatus :: "int \<Rightarrow> pipeline_state \<Rightarrow> status_response" where
  \<comment> \<open>times are milliseconds; the route changes no global\<close>
  "getStatus now s =
     \<lparr>r_isProcessing = isProcessing s,
      r_processingTime =
        (case processingStartTime s of None \<Rightarrow> 0 | Some t \<Rightarrow> (now - t) div 1000),
      r_processingStartTime = processingStartTime s,
      r_processingError = processingError s,
      r_status = (if isProcessing s then ''processing''
                  else if truthy (processingError s) then ''error'' else ''idle'')\<rparr>"

subsection \<open>Every write to the globals\<close>

text \<open>
  The globals are written in four places only: the start of a run, the two failure
  handlers, and the last callback. A stage that exits with code 0 writes nothing. The
  states the server can be in are those reached from \<open>idle\<close> by these writes in any order,
  which covers runs that overlap.
\<close>

inductive reachable :: "pipeline_state \<Rightarrow> bool" where
  initial: "reachable idle"
| run_start: "reachable s \<Longrightarrow> reachable (startRun now s)"
| stage_success: "reachable s \<Longrightarrow> reachable s"
| stage_exit_failure: "reachable s \<Longrightarrow> code \<noteq> Some 0 \<Longrightarrow> reachable (closeFailed scriptPath code s)"
| stage_start_failure: "reachable s \<Longrightarrow> reachable (startFailed scriptPath message s)"
| final_completion: "reachable s \<Longrightarrow> reachable (allDone s)"

section \<open>The server: storage and the upload route\<close>

record multer_file =
  originalname :: string
  filename :: string
  path :: string

definition storage_destination :: "string \<Rightarrow> string" where
  "storage_destination cwd = path_join cwd ''data''"

text \<open>
  The two storage callbacks get the file object multer has built. Its \<open>originalname\<close> is
  multer's reading of the name on the request: as the server sets no \<open>preservePath\<close>, that
  is the last path segment of the name (what follows the last slash or backslash), so a
  name with neither in it comes through as it is. The callbacks are modelled from
  \<open>file.originalname\<close> on; what multer does before is not part of this code.
\<close>

definition storage_filename :: "string \<Rightarrow> string" where
  \<comment> \<open>\<open>cb(null, file.originalname)\<close>\<close>
  "storage_filename original = original"

definition store :: "string \<Rightarrow> string \<Rightarrow> multer_file" where
  \<comment> \<open>\<open>req.file\<close> as \<open>upload.single("file")\<close> leaves it; \<open>original\<close> is \<open>file.originalname\<close>\<close>
  "store cwd original =
     \<lparr>originalname = original,
      filename = storage_filename original,
      path = path_join (storage_destination cwd) (storage_filename original)\<rparr>"

datatype json = JString string | JBool bool | JErrors "structural_error list"

text \<open>
  What the route does, in the order it does it: it removes a file, sends a response
  (status and body), starts the pipeline. When \<open>validateExcelFile\<close> is left by an exception
  the handler is left too, before any of these (\<open>Inl\<close>).
\<close>

datatype effect =
    Unlink string
  | Respond nat "(string \<times> json) list"
  | StartPipeline

definition uploadRoute :: "read_result \<Rightarrow> multer_file option \<Rightarrow> crash + effect list" where
  \<comment> \<open>\<open>opened\<close> is what \<open>XLSX.readFile\<close> gives at the path of the stored file\<close>
  "uploadRoute opened req_file =
     (case req_file of
        None \<Rightarrow>
          Inr [Respond 400 [(''message'', JString ''No file uploaded''),
                            (''error'', JString ''No file received'')]]
      | Some file \<Rightarrow>
          (let filePath = path file
           in case validateExcelFile opened of
                Inl c \<Rightarrow> Inl c
              | Inr validation \<Rightarrow>
                  if \<not> valid validation
                  then Inr [Unlink filePath,
                            Respond 400
                              [(''message'', JString ''Excel file validation failed''),
                               (''error'', JString ''File does not meet requirements''),
                               (''validationErrors'', JErrors (errors validation))]]
                  else Inr [Respond 200
                              [(''message'',
                                JString ''File validated successfully. Processing started...''),
                               (''filename'', JString (filename file))],
                            StartPipeline]))"

section \<open>Properties of the pipeline state\<close>

text \<open>
  Claim C3. In every state of the globals that is reached from the idle state by the
  orchestrator's writes (the start of a run, a stage that succeeds, a stage that fails, the
  last callback), a recorded error means that nothing is being processed.
\<close>

theorem error_implies_not_processing:
  "reachable s \<Longrightarrow> processingError s \<noteq> None \<Longrightarrow> \<not> isProcessing s"
  by (induction rule: reachable.induct)
     (simp_all add: idle_def startRun_def closeFailed_def startFailed_def allDone_def)

theorem error_implies_not_processing_witness:
  "reachable (closeFailed ''/srv/cleaning2.py'' (Some 1) (startRun 0 idle))
   \<and> processingError (closeFailed ''/srv/cleaning2.py'' (Some 1) (startRun 0 idle)) \<noteq> None
   \<and> \<not> isProcessing (closeFailed ''/srv/cleaning2.py'' (Some 1) (startRun 0 idle))"
proof -
  let ?s = "closeFailed ''/srv/cleaning2.py'' (Some 1) (startRun 0 idle)"
  have r: "reachable ?s"
    by (rule reachable.stage_exit_failure, rule reachable.run_start, rule reachable.initial) simp
  have e: "processingError ?s \<noteq> None"
    by (simp add: closeFailed_def)
  from r e error_implies_not_processing [OF r e] show ?thesis by blast
qed

text \<open>
  The inductive description covers the code: whatever the processes report, a run started
  in a reachable state ends in one.
\<close>

lemma on_event_reachable:
  assumes k: "\<And>v. reachable (globals v) \<Longrightarrow> reachable (globals (k v))"
    and w: "reachable (globals w)"
  shows "reachable (globals (fold (on_event p k) evs w))"
  using w
proof (induction evs arbitrary: w)
  case Nil
  then show ?case by simp
next
  case (Cons e evs)
  have "reachable (globals (on_event p k e w))"
  proof (cases e)
    case (Close code)
    then show ?thesis
      using Cons.prems k by (auto intro: reachable.stage_exit_failure)
  next
    case (Error m)
    then show ?thesis
      using Cons.prems by (auto intro: reachable.stage_start_failure)
  qed
  then show ?case using Cons.IH by simp
qed

lemma runChain_reachable:
  "reachable (globals w) \<Longrightarrow> reachable (globals (runChain env ps w))"
proof (induction ps arbitrary: w)
  case Nil
  then show ?case by (auto intro: reachable.final_completion)
next
  case (Cons p ps)
  show ?case
    using on_event_reachable [of "runChain env ps" "w\<lparr>spawned := spawned w @ [p]\<rparr>" p "env p"] Cons
    by (simp add: runSingleScript_def)
qed

lemma runChain_Nil_fun: "runChain env [] = (\<lambda>w. w\<lparr>globals := allDone (globals w)\<rparr>)"
  by (rule ext) simp

lemma runChain_Cons_fun: "runChain env (p # ps) = runSingleScript env p (runChain env ps)"
  by (rule ext) simp

lemma runPythonScripts_runChain:
  "runPythonScripts env cwd now w =
     runChain env (stages cwd) (w\<lparr>globals := startRun now (globals w)\<rparr>)"
  by (simp add: runPythonScripts_def stages_def runChain_Cons_fun runChain_Nil_fun)

lemma runPythonScripts_reachable:
  "reachable (globals w) \<Longrightarrow> reachable (globals (runPythonScripts env cwd now w))"
  unfolding runPythonScripts_runChain
  by (rule runChain_reachable) (simp add: reachable.run_start)

section \<open>Properties of the structural validator\<close>

text \<open>
  Claim C10. A workbook that opens but lists no sheet is rejected with the single
  "no sheets" error, whatever else the workbook holds, so no sheet is looked at. The
  result differs from every outcome of a workbook that cannot be opened: a thrown error
  with a message gives one of the three read-failure messages, and any other thrown
  value makes the function end in a \<open>TypeError\<close>.
\<close>

theorem no_sheets_single_error:
  "SheetNames wb = [] \<Longrightarrow>
     validateExcelFile (Opened wb) = Inr \<lparr>valid = False, errors = [NoSheets]\<rparr>
     \<and> validateExcelFile (Throws t) \<noteq> validateExcelFile (Opened wb)
     \<and> validateExcelFile (Throws (WithMessage message))
         = Inr \<lparr>valid = False, errors = [readFailure message]\<rparr>
     \<and> readFailure message \<noteq> NoSheets
     \<and> validateExcelFile (Throws WithoutMessage) = Inl TypeError"
  by (cases t) (simp_all add: validateExcelFile_def readFailure_def)

theorem no_sheets_single_error_witness:
  "SheetNames \<lparr>SheetNames = [], Sheets = [(''2024'', [[''barangay'']])]\<rparr> = []
   \<and> validateExcelFile (Opened \<lparr>SheetNames = [], Sheets = [(''2024'', [[''barangay'']])]\<rparr>)
       = Inr \<lparr>valid = False, errors = [NoSheets]\<rparr>
   \<and> validateExcelFile (Throws (WithMessage ''Unsupported file''))
       \<noteq> validateExcelFile (Opened \<lparr>SheetNames = [], Sheets = [(''2024'', [[''barangay'']])]\<rparr>)
   \<and> validateExcelFile (Throws WithoutMessage) = Inl TypeError"
proof -
  let ?wb = "\<lparr>SheetNames = [], Sheets = [(''2024'', [[''barangay'']])]\<rparr>"
  have h: "SheetNames ?wb = []" by simp
  from h no_sheets_single_error [OF h, of "WithMessage ''Unsupported file''" "''Unsupported file''"]
  show ?thesis by blast
qed

section \<open>Properties of the column check\<close>

text \<open>A normalized header is in lower case already, so the second \<open>toLowerCase\<close> changes nothing.\<close>

lemma toLowerChar_idem: "toLowerChar (toLowerChar c) = toLowerChar c"
proof -
  define n where "n = (of_char c :: nat)"
  show ?thesis
  proof (cases "(65 \<le> n \<and> n \<le> 90) \<or> (192 \<le> n \<and> n \<le> 222 \<and> n \<noteq> 215)")
    case True
    then have "(n + 32) mod 256 = n + 32" by auto
    then have o: "(of_char (char_of (n + 32) :: char) :: nat) = n + 32" by simp
    have t: "toLowerChar c = char_of (n + 32)"
      using True by (simp add: toLowerChar_def Let_def n_def)
    have "toLowerChar (char_of (n + 32)) = char_of (n + 32)"
      using True unfolding toLowerChar_def Let_def o by auto
    with t show ?thesis by simp
  next
    case False
    then have "toLowerChar c = c"
      by (auto simp: toLowerChar_def Let_def n_def)
    then show ?thesis by simp
  qed
qed

lemma toLowerChar_underscore: "toLowerChar CHR ''_'' = CHR ''_''"
  by (simp add: toLowerChar_def)

lemma collapseSpaces_set:
  "set (collapseSpaces s) \<subseteq> insert CHR ''_'' (set s)"
proof (induction s rule: collapseSpaces.induct)
  case 1
  show ?case by simp
next
  case (2 c cs)
  show ?case
  proof (cases "isSpace c")
    case True
    have "set (dropWhile isSpace cs) \<subseteq> set cs" by (auto dest: set_dropWhileD)
    with 2(1) [OF True] True show ?thesis by auto
  next
    case False
    with 2(2) show ?thesis by auto
  qed
qed

lemma normalizeHeader_lower: "toLowerCase (normalizeHeader h) = normalizeHeader h"
proof -
  have "\<forall>c \<in> set (normalizeHeader h). toLowerChar c = c"
  proof
    fix c assume "c \<in> set (normalizeHeader h)"
    then have "c \<in> set (collapseSpaces (toLowerCase (trim h)))"
      by (simp add: normalizeHeader_def stripNonWord_def)
    then have "c = CHR ''_'' \<or> c \<in> set (toLowerCase (trim h))"
      using collapseSpaces_set by blast
    then show "toLowerChar c = c"
      by (auto simp: toLowerCase_def toLowerChar_idem toLowerChar_underscore)
  qed
  then show ?thesis
    by (simp add: toLowerCase_def map_idI)
qed

text \<open>
  The required names are in lower case and have no underscore, so both comparisons in
  \<open>columnFound\<close> ask the same thing: is the name one of the normalized headers.
\<close>

lemma required_columns_plain:
  "\<forall>col \<in> set ALL_REQUIRED_COLUMNS.
     toLowerCase (filter (\<lambda>c. c \<noteq> CHR ''_'') col) = col \<and> toLowerCase col = col"
  by code_simp

lemma columnFound_iff:
  assumes "col \<in> set ALL_REQUIRED_COLUMNS"
  shows "columnFound (map normalizeHeader headers) col \<longleftrightarrow> col \<in> normalizeHeader ` set headers"
  using required_columns_plain assms
  by (auto simp: columnFound_def Let_def list_ex_iff normalizeHeader_lower)

lemma missingColumns_eq:
  "filter (\<lambda>col. \<not> columnFound (map normalizeHeader headers) col) ALL_REQUIRED_COLUMNS
     = filter (\<lambda>col. col \<notin> normalizeHeader ` set headers) ALL_REQUIRED_COLUMNS"
  by (rule filter_cong) (simp_all add: columnFound_iff)

lemma only_victimkilled:
  "filter (\<lambda>col. col = ''victimkilled'') ALL_REQUIRED_COLUMNS = [''victimkilled'']"
  "''victimkilled'' \<notin> set REQUIRED_COLUMNS"
  "''victimkilled'' \<in> set SEVERITY_CALC_COLUMNS"
  by code_simp+

lemma columnErrors_only_victimkilled:
  assumes "\<forall>col \<in> set ALL_REQUIRED_COLUMNS.
             col \<in> normalizeHeader ` set headers \<longleftrightarrow> col \<noteq> ''victimkilled''"
  shows "columnErrors sheetName headers = [MissingSeverity sheetName [''victimkilled'']]"
proof -
  have "filter (\<lambda>col. col \<notin> normalizeHeader ` set headers) ALL_REQUIRED_COLUMNS
          = filter (\<lambda>col. col = ''victimkilled'') ALL_REQUIRED_COLUMNS"
    using assms by (intro filter_cong) auto
  then have m: "filter (\<lambda>col. \<not> columnFound (map normalizeHeader headers) col) ALL_REQUIRED_COLUMNS
          = [''victimkilled'']"
    by (simp add: missingColumns_eq only_victimkilled(1))
  show ?thesis
    unfolding columnErrors_def Let_def m using only_victimkilled(2,3) by simp
qed

lemma columnErrors_complete:
  assumes "\<forall>col \<in> set ALL_REQUIRED_COLUMNS. col \<in> normalizeHeader ` set headers"
  shows "columnErrors sheetName headers = []"
proof -
  have "filter (\<lambda>col. col \<notin> normalizeHeader ` set headers) ALL_REQUIRED_COLUMNS = []"
    using assms by (simp add: filter_empty_conv)
  then show ?thesis
    by (simp add: columnErrors_def Let_def missingColumns_eq)
qed





text \<open>A workbook of one sheet with a header row and at least one more row.\<close>

lemma validate_single_sheet:
  "validateExcelFile (Opened \<lparr>SheetNames = [n], Sheets = [(n, headers # row # rest)]\<rparr>) =
     (let errs = (if yearRegex n then [] else [YearMissing n]) @ columnErrors n headers
      in if errs = [] then Inr \<lparr>valid = True, errors = []\<rparr>
         else Inr \<lparr>valid = False, errors = errs\<rparr>)"
  by (simp add: validateExcelFile_def validateSheet_def sheet_to_json_def Let_def)

lemma normalize_required: "map normalizeHeader ALL_REQUIRED_COLUMNS = ALL_REQUIRED_COLUMNS"
  by code_simp

lemma columnErrors_all_required: "columnErrors n ALL_REQUIRED_COLUMNS = []"
proof (rule columnErrors_complete)
  have "normalizeHeader ` set ALL_REQUIRED_COLUMNS = set (map normalizeHeader ALL_REQUIRED_COLUMNS)"
    by simp
  then show "\<forall>col \<in> set ALL_REQUIRED_COLUMNS. col \<in> normalizeHeader ` set ALL_REQUIRED_COLUMNS"
    by (simp only: normalize_required) simp
qed

lemma year_2024: "yearRegex ''2024''"
  by code_simp

lemma valid_sample_workbook:
  "validateExcelFile
     (Opened \<lparr>SheetNames = [''2024''],
              Sheets = [(''2024'', [ALL_REQUIRED_COLUMNS, [''Poblacion'']])]\<rparr>)
     = Inr \<lparr>valid = True, errors = []\<rparr>"
  by (simp add: validate_single_sheet columnErrors_all_required year_2024)

lemma spellings_accepted:
  "map normalizeHeader [''VictimKilled'', '' victimkilled  '', ''Victim-Killed'', ''(victimkilled)'']
     = [''victimkilled'', ''victimkilled'', ''victimkilled'', ''victimkilled'']"
  by code_simp

lemma normalize_eleven:
  "map normalizeHeader
     [''barangay'', ''lat'', ''lng'', ''datecommitted'', ''timecommitted'', ''offensetype'',
      ''victimcount'', ''suspectcount'', ''victiminjured'', ''victimunharmed'', ''suspectkilled'']
   = [''barangay'', ''lat'', ''lng'', ''datecommitted'', ''timecommitted'', ''offensetype'',
      ''victimcount'', ''suspectcount'', ''victiminjured'', ''victimunharmed'', ''suspectkilled'']"
  by code_simp

lemma normalize_spaced: "normalizeHeader ''Victim Killed'' = ''victim_killed''"
  by code_simp

lemma normalize_underscored: "normalizeHeader ''victim_killed'' = ''victim_killed''"
  by code_simp


lemma eleven_without_victimkilled:
  assumes "set extra \<subseteq> {cell. normalizeHeader cell = ''victim_killed''}"
  shows "\<forall>col \<in> set ALL_REQUIRED_COLUMNS.
     col \<in> normalizeHeader ` set
       ([''barangay'', ''lat'', ''lng'', ''datecommitted'', ''timecommitted'', ''offensetype'',
         ''victimcount'', ''suspectcount'', ''victiminjured'', ''victimunharmed'',
         ''suspectkilled''] @ extra)
     \<longleftrightarrow> col \<noteq> ''victimkilled''"
proof -
  let ?eleven = "[''barangay'', ''lat'', ''lng'', ''datecommitted'', ''timecommitted'',
    ''offensetype'', ''victimcount'', ''suspectcount'', ''victiminjured'', ''victimunharmed'',
    ''suspectkilled'']"
  have e: "normalizeHeader ` set ?eleven = set ?eleven"
    using normalize_eleven by (metis set_map)
  have x: "normalizeHeader ` set extra \<subseteq> {''victim_killed''}"
    using assms by auto
  have i: "normalizeHeader ` set (?eleven @ extra) = set ?eleven \<union> normalizeHeader ` set extra"
    by (simp only: set_append image_Un e)
  show ?thesis
  proof
    fix col assume c: "col \<in> set ALL_REQUIRED_COLUMNS"
    have "col \<noteq> ''victim_killed''"
      using c by (auto simp: ALL_REQUIRED_COLUMNS_def REQUIRED_COLUMNS_def SEVERITY_CALC_COLUMNS_def)
    with x have nx: "col \<notin> normalizeHeader ` set extra" by blast
    have "col \<in> set ?eleven \<longleftrightarrow> col \<noteq> ''victimkilled''"
      using c by (auto simp: ALL_REQUIRED_COLUMNS_def REQUIRED_COLUMNS_def SEVERITY_CALC_COLUMNS_def)
    with nx show "col \<in> normalizeHeader ` set (?eleven @ extra) \<longleftrightarrow> col \<noteq> ''victimkilled''"
      unfolding i by blast
  qed
qed

text \<open>
  A header cell with white space or an underscore inside the name is another matter than
  one that normalizes to \<open>victimkilled\<close>: white space inside becomes an underscore, an
  underscore is kept, and the cell normalizes to \<open>victim_killed\<close>. Such a cell is not a
  spelling of the column for the validator, and the column stays reported.
\<close>

lemma spaced_or_underscored_header_still_missing:
  "validateExcelFile
        (Opened \<lparr>SheetNames = [''2024''],
                 Sheets = [(''2024'',
                   [[''barangay'', ''lat'', ''lng'', ''datecommitted'', ''timecommitted'',
                     ''offensetype'', ''victimcount'', ''suspectcount'', ''victiminjured'',
                     ''victimunharmed'', ''suspectkilled''] @ [''Victim Killed'', ''victim_killed''],
                    [''Poblacion'']])]\<rparr>)
       = Inr \<lparr>valid = False, errors = [MissingSeverity ''2024'' [''victimkilled'']]\<rparr>"
proof -
  have "set [''Victim Killed'', ''victim_killed''] \<subseteq> {cell. normalizeHeader cell = ''victim_killed''}"
    by (simp add: normalize_spaced normalize_underscored)
  note a = columnErrors_only_victimkilled [OF eleven_without_victimkilled [OF this], of "''2024''"]
  show ?thesis
    by (simp only: validate_single_sheet a year_2024 Let_def) simp
qed











section \<open>Properties of the year check\<close>

lemma yearRegex_containsYear: "yearRegex s \<Longrightarrow> containsYear s"
  by (auto simp: yearRegex_def containsYear_def yearMatchAt_def list_ex_iff)

lemma columnErrors_no_year: "filter isYearError (columnErrors n hs) = []"
  by (simp add: columnErrors_def Let_def)

lemma validateSheet_year:
  "filter isYearError (validateSheet wb n) = (if yearRegex n then [] else [YearMissing n])"
  by (simp add: validateSheet_def Let_def columnErrors_no_year split: list.splits)

lemma concat_year:
  "\<forall>n \<in> set ns. \<not> yearRegex n \<Longrightarrow>
     filter isYearError (concat (map (validateSheet wb) ns)) = map YearMissing ns"
  by (induction ns) (simp_all add: validateSheet_year)

text \<open>
  The year error is pushed for a sheet exactly when the pattern does not match its name,
  once; so a workbook none of whose sheet names contains a year gets one year error for
  each sheet, in order, and is invalid.
\<close>

lemma no_year_one_error_per_sheet:
  assumes "\<forall>n \<in> set (SheetNames wb). \<not> containsYear n" and "SheetNames wb \<noteq> []"
  shows "\<exists>v. validateExcelFile (Opened wb) = Inr v \<and> \<not> valid v
           \<and> filter isYearError (errors v) = map YearMissing (SheetNames wb)"
proof -
  have ny: "\<forall>n \<in> set (SheetNames wb). \<not> yearRegex n"
    using assms(1) yearRegex_containsYear by blast
  let ?errs = "concat (map (validateSheet wb) (SheetNames wb))"
  have f: "filter isYearError ?errs = map YearMissing (SheetNames wb)"
    using ny by (rule concat_year)
  with assms(2) have ne: "?errs \<noteq> []" by (metis filter.simps(1) map_is_Nil_conv)
  have "validateExcelFile (Opened wb) = Inr \<lparr>valid = False, errors = ?errs\<rparr>"
    using ne assms(2) by (simp add: validateExcelFile_def Let_def)
  with f show ?thesis by simp
qed

lemma year_checks_underscore_name:
  "containsYear ''Accidents_2024''" "\<not> yearRegex ''Accidents_2024''"
  by code_simp+

text \<open>
  Claim C1 (a year error exactly for the names with no year from 1900 to 2099 in them)
  fails on the code in one direction: the pattern asks for a word boundary on both sides
  of the four digits, and an underscore, a letter or a digit beside them is none. The
  sheet name \<open>Accidents_2024\<close>, which the error message itself gives as an example of a
  good name, contains 2024 and still gets the year error.
\<close>

theorem year_error_despite_year_in_name:
  "containsYear ''Accidents_2024''
   \<and> \<not> yearRegex ''Accidents_2024''
   \<and> validateExcelFile
        (Opened \<lparr>SheetNames = [''Accidents_2024''],
                 Sheets = [(''Accidents_2024'', [ALL_REQUIRED_COLUMNS, [''Poblacion'']])]\<rparr>)
       = Inr \<lparr>valid = False, errors = [YearMissing ''Accidents_2024'']\<rparr>"
  by (simp add: year_checks_underscore_name validate_single_sheet columnErrors_all_required)

section \<open>Properties of the client-side validator\<close>

lemma posted_set: "g \<in> set (posted rs) \<longleftrightarrow> Inr g \<in> set rs"
  by (induction rs rule: posted.induct) auto

text \<open>
  Claim C7. \<open>validateFile\<close> reports a size error exactly for the files whose size lies
  outside 1024 to 50 * 1024 * 1024 bytes, both ends included. A file with any error is
  not posted: its callback returns with the error list, and every file a drop posts comes
  from an accepted file with no error.
\<close>

theorem size_error_iff_out_of_range:
  "((\<exists>e \<in> set (validateFile f). isSizeError e)
      \<longleftrightarrow> \<not> (1024 \<le> file_size f \<and> file_size f \<le> 50 * 1024 * 1024))
   \<and> (validateFile f \<noteq> [] \<longrightarrow> onDropFile f = Inl (validateFile f))
   \<and> (\<forall>g \<in> set (onDrop acceptedFiles rejectedFiles).
         \<exists>f' \<in> set acceptedFiles. validateFile f' = [] \<and> onDropFile f' = Inr g)"
proof -
  have a: "(\<exists>e \<in> set (validateFile f). isSizeError e)
      \<longleftrightarrow> \<not> (1024 \<le> file_size f \<and> file_size f \<le> 50 * 1024 * 1024)"
    by (auto simp: validateFile_def Let_def MAX_FILE_SIZE_def MIN_FILE_SIZE_def)
  have b: "validateFile f \<noteq> [] \<longrightarrow> onDropFile f = Inl (validateFile f)"
    by (simp add: onDropFile_def Let_def)
  have c: "\<forall>g \<in> set (onDrop acceptedFiles rejectedFiles).
         \<exists>f' \<in> set acceptedFiles. validateFile f' = [] \<and> onDropFile f' = Inr g"
  proof
    fix g assume "g \<in> set (onDrop acceptedFiles rejectedFiles)"
    then have "Inr g \<in> set (map onDropFile acceptedFiles)"
      by (auto simp: onDrop_def posted_set split: if_splits)
    then obtain f' where f': "f' \<in> set acceptedFiles" "onDropFile f' = Inr g" by auto
    then have "validateFile f' = []"
      by (auto simp: onDropFile_def Let_def split: if_splits)
    with f' show "\<exists>f' \<in> set acceptedFiles. validateFile f' = [] \<and> onDropFile f' = Inr g" by blast
  qed
  from a b c show ?thesis by blast
qed

lemma sample_name_checks:
  "\<not> list_ex isInvalidChar ''Accidents 2024.xlsx''
   \<and> \<not> scriptPattern ''Accidents 2024.xlsx''
   \<and> toLowerCase (substringFrom ''Accidents 2024.xlsx'' (lastIndexOf ''Accidents 2024.xlsx'' CHR ''.''))
       = ''.xlsx''
   \<and> length (filter (\<lambda>c. c = CHR ''.'') ''Accidents 2024.xlsx'') = 1
   \<and> \<not> startsWith ''Accidents 2024.xlsx'' ''.''
   \<and> sanitizeFileName ''Accidents 2024.xlsx'' = ''Accidents_2024.xlsx''"
  by code_simp

lemma validateFile_sample:
  "validateFile \<lparr>file_name = ''Accidents 2024.xlsx'', file_size = n, file_type = []\<rparr>
     = (if n > 50 * 1024 * 1024 then [FileTooLarge n] else [])
       @ (if n < 1024 then [FileTooSmall n] else [])"
  using sample_name_checks
  by (simp add: validateFile_def Let_def MAX_FILE_SIZE_def MIN_FILE_SIZE_def ALLOWED_EXTENSIONS_def)

lemma validateFile_small_file:
  "validateFile \<lparr>file_name = ''Accidents 2024.xlsx'', file_size = 100, file_type = []\<rparr>
     = [FileTooSmall 100]"
  by (simp add: validateFile_sample)

lemma validateFile_good_file:
  "validateFile \<lparr>file_name = ''Accidents 2024.xlsx'', file_size = 2048, file_type = []\<rparr> = []"
  by (simp add: validateFile_sample)

lemma onDropFile_good_file:
  "onDropFile \<lparr>file_name = ''Accidents 2024.xlsx'', file_size = 2048, file_type = []\<rparr>
     = Inr \<lparr>file_name = ''Accidents_2024.xlsx'', file_size = 2048, file_type = []\<rparr>"
  using sample_name_checks by (simp add: onDropFile_def validateFile_good_file)

lemma onDrop_small_and_good:
  "onDrop [\<lparr>file_name = ''Accidents 2024.xlsx'', file_size = 100, file_type = []\<rparr>,
           \<lparr>file_name = ''Accidents 2024.xlsx'', file_size = 2048, file_type = []\<rparr>] ([] :: unit list)
     = [\<lparr>file_name = ''Accidents_2024.xlsx'', file_size = 2048, file_type = []\<rparr>]"
proof -
  have "onDropFile \<lparr>file_name = ''Accidents 2024.xlsx'', file_size = 100, file_type = []\<rparr>
          = Inl [FileTooSmall 100]"
    by (simp add: onDropFile_def validateFile_small_file)
  then show ?thesis
    by (simp add: onDrop_def onDropFile_good_file)
qed

theorem size_error_iff_out_of_range_witness:
  "(\<exists>e \<in> set (validateFile \<lparr>file_name = ''Accidents 2024.xlsx'', file_size = 100, file_type = []\<rparr>).
      isSizeError e)
   \<and> validateFile \<lparr>file_name = ''Accidents 2024.xlsx'', file_size = 100, file_type = []\<rparr> \<noteq> []
   \<and> onDropFile \<lparr>file_name = ''Accidents 2024.xlsx'', file_size = 100, file_type = []\<rparr>
       = Inl [FileTooSmall 100]
   \<and> onDrop [\<lparr>file_name = ''Accidents 2024.xlsx'', file_size = 100, file_type = []\<rparr>,
              \<lparr>file_name = ''Accidents 2024.xlsx'', file_size = 2048, file_type = []\<rparr>]
             ([] :: unit list)
       = [\<lparr>file_name = ''Accidents_2024.xlsx'', file_size = 2048, file_type = []\<rparr>]"
proof -
  let ?small = "\<lparr>file_name = ''Accidents 2024.xlsx'', file_size = 100, file_type = []\<rparr>"
  let ?good = "\<lparr>file_name = ''Accidents 2024.xlsx'', file_size = 2048, file_type = []\<rparr>"
  have ne: "validateFile ?small \<noteq> []"
    by (simp add: validateFile_small_file)
  have out: "\<not> (1024 \<le> file_size ?small \<and> file_size ?small \<le> 50 * 1024 * 1024)"
    by simp
  note t = size_error_iff_out_of_range [of ?small "[?small, ?good]" "[] :: unit list"]
  from t out have "\<exists>e \<in> set (validateFile ?small). isSizeError e" by blast
  moreover from t ne have "onDropFile ?small = Inl [FileTooSmall 100]"
    by (simp add: validateFile_small_file)
  moreover have "onDrop [?small, ?good] ([] :: unit list)
      = [\<lparr>file_name = ''Accidents_2024.xlsx'', file_size = 2048, file_type = []\<rparr>]"
    by (rule onDrop_small_and_good)
  ultimately show ?thesis using ne by blast
qed

section \<open>Properties of the orchestrator\<close>

text \<open>An exit code is written in decimal: read back, the digits give the code.\<close>

lemma readNat_snoc: "readNat (s @ [c]) = 10 * readNat s + (of_char c - 48)"
  by (simp add: readNat_def)

lemma digitChar_value: "d < 10 \<Longrightarrow> (of_char (digitChar d) :: nat) - 48 = d"
  by (simp add: digitChar_def)

lemma readNat_showNat: "readNat (showNat n) = n"
proof (induction n rule: showNat.induct)
  case (1 n)
  show ?case
  proof (cases "n < 10")
    case True
    then show ?thesis
      by (subst showNat.simps) (simp add: readNat_def digitChar_value)
  next
    case False
    with 1 have "readNat (showNat (n div 10)) = n div 10" by simp
    with False show ?thesis
      by (subst showNat.simps) (simp add: readNat_snoc digitChar_value)
  qed
qed

lemma showCode_null: "showCode None = ''null''"
  by (simp add: showCode_def)

lemma showCode_decimal: "0 \<le> i \<Longrightarrow> readNat (showCode (Some i)) = nat i"
  by (simp add: showCode_def readNat_showNat del: showNat.simps)

lemma showCode_negative: "i < 0 \<Longrightarrow> readNat (tl (showCode (Some i))) = nat (- i)"
  by (simp add: showCode_def readNat_showNat del: showNat.simps)

lemma runSingleScript_success:
  "env p = [Close (Some 0)] \<Longrightarrow>
     runSingleScript env p k w = k (w\<lparr>spawned := spawned w @ [p]\<rparr>)"
  by (simp add: runSingleScript_def)

lemma runChain_success_prefix:
  "\<forall>p \<in> set ps. env p = [Close (Some 0)] \<Longrightarrow>
     runChain env (ps @ qs) w = runChain env qs (w\<lparr>spawned := spawned w @ ps\<rparr>)"
proof (induction ps arbitrary: w)
  case Nil
  then show ?case by simp
next
  case (Cons p ps)
  then show ?case by (simp add: runSingleScript_success)
qed

lemma fold_failures:
  "Close (Some 0) \<notin> set evs \<Longrightarrow>
     spawned (fold (on_event p k) evs w) = spawned w
     \<and> processingStartTime (globals (fold (on_event p k) evs w)) = processingStartTime (globals w)
     \<and> (evs \<noteq> [] \<longrightarrow>
          \<not> isProcessing (globals (fold (on_event p k) evs w))
          \<and> processingError (globals (fold (on_event p k) evs w)) = Some (failureMessage p (last evs)))"
proof (induction evs rule: rev_induct)
  case Nil
  then show ?case by simp
next
  case (snoc e evs)
  then show ?case
    by (cases e) (auto simp: closeFailed_def startFailed_def)
qed

lemma runChain_failure:
  assumes "Close (Some 0) \<notin> set (env p)" and "env p \<noteq> []"
  shows "spawned (runChain env (p # qs) w) = spawned w @ [p]"
    and "\<not> isProcessing (globals (runChain env (p # qs) w))"
    and "processingError (globals (runChain env (p # qs) w)) = Some (failureMessage p (last (env p)))"
  using assms fold_failures [of "env p" p "runChain env qs" "w\<lparr>spawned := spawned w @ [p]\<rparr>"]
  by (simp_all add: runSingleScript_def)

lemma distinct_stages: "distinct (stages cwd)"
  by (simp add: stages_def script1_def script2_def script3_def cleanupScript_def uploadScript_def path_join_def)

lemma length_stages: "length (stages cwd) = 5"
  by (simp add: stages_def)

lemma lastIndexOfFrom_absent:
  "c \<notin> set xs \<Longrightarrow> lastIndexOfFrom c xs i found = found"
  by (induction xs arbitrary: i found) auto

lemma lastIndexOfFrom_append:
  "lastIndexOfFrom c (xs @ ys) i found = lastIndexOfFrom c ys (i + int (length xs)) (lastIndexOfFrom c xs i found)"
  by (induction xs arbitrary: i found) (auto simp: algebra_simps)

lemma basename_path_join:
  "CHR ''/'' \<notin> set fname \<Longrightarrow> basename (path_join dir fname) = fname"
proof -
  assume a: "CHR ''/'' \<notin> set fname"
  have "lastIndexOf (path_join dir fname) CHR ''/'' = int (length dir)"
    using a by (simp add: path_join_def lastIndexOf_def lastIndexOfFrom_append lastIndexOfFrom_absent)
  moreover have "nat (int (length dir) + 1) = Suc (length dir)"
    by simp
  ultimately show ?thesis
    by (simp add: basename_def substringFrom_def clampIndex_def path_join_def)
qed

lemma includesStr_here: "includesStr (p @ ys) p"
proof (cases "p @ ys")
  case Nil
  then show ?thesis by simp
next
  case (Cons a list)
  have "startsWith (p @ ys) p" by (simp add: startsWith_def)
  with Cons show ?thesis by simp
qed

lemma includesStr_append: "includesStr (xs @ p @ ys) p"
  by (induction xs) (auto simp: includesStr_here)

lemma exitMessage_names: "CHR ''/'' \<notin> set fname \<Longrightarrow> includesStr (exitMessage (path_join dir fname) code) fname"
  using includesStr_append [of "''Script ''" fname] by (simp add: exitMessage_def basename_path_join)

lemma startMessage_names: "CHR ''/'' \<notin> set fname \<Longrightarrow> includesStr (startMessage (path_join dir fname) m) fname"
  using includesStr_append [of "''Failed to start ''" fname] by (simp add: startMessage_def basename_path_join)

lemma failureMessage_names:
  "CHR ''/'' \<notin> set fname \<Longrightarrow> includesStr (failureMessage (path_join dir fname) e) fname"
  by (cases e) (simp_all add: exitMessage_names startMessage_names)

lemma stages_names: "stages cwd = map (path_join cwd) stageNames"
  by (simp add: stages_def stageNames_def script1_def script2_def script3_def cleanupScript_def uploadScript_def)

lemma failureMessage_nonempty: "failureMessage p e \<noteq> []"
  by (cases e) (simp_all add: exitMessage_def startMessage_def)

text \<open>
  Claim C2. Let stage \<open>k\<close> (counted from 1) be the first whose process does not exit with
  code 0: the stages before it exit with 0, and it reports at least one event, none of
  them an exit with 0 (a non-zero or null exit code, a failure to start, or both in a row).
  Then exactly the first \<open>k\<close> stages are spawned, so stage \<open>k + 1\<close> is not; \<open>isProcessing\<close>
  is false; the error field holds the message of the last event, which names the file of
  stage \<open>k\<close> and gives the reason (\<open>Script\<close>, the file name, \<open>failed with exit code\<close> and the
  code for an exit; \<open>Failed to start\<close>, the file name, a colon and the error's message for
  a failure to start); and the status route answers \<open>error\<close> with that message.
\<close>

theorem stage_failure_stops_pipeline:
  fixes env :: "string \<Rightarrow> event list" and cwd :: string and now t :: int and w :: world and k :: nat
  assumes k: "1 \<le> k" "k \<le> 5"
    and ok: "\<forall>j < k - 1. env (stages cwd ! j) = [Close (Some 0)]"
    and bad: "env (stages cwd ! (k - 1)) \<noteq> []" "Close (Some 0) \<notin> set (env (stages cwd ! (k - 1)))"
  defines "w' \<equiv> runPythonScripts env cwd now w"
  defines "msg \<equiv> failureMessage (stages cwd ! (k - 1)) (last (env (stages cwd ! (k - 1))))"
  shows "spawned w' = spawned w @ take k (stages cwd)
       \<and> (k < 5 \<longrightarrow> stages cwd ! k \<notin> set (take k (stages cwd)))
       \<and> \<not> isProcessing (globals w')
       \<and> processingError (globals w') = Some msg
       \<and> includesStr msg (stageNames ! (k - 1))
       \<and> (case last (env (stages cwd ! (k - 1))) of
            Close code \<Rightarrow>
              msg = ''Script '' @ stageNames ! (k - 1) @ '' failed with exit code '' @ showCode code
          | Error message \<Rightarrow>
              msg = ''Failed to start '' @ stageNames ! (k - 1) @ '': '' @ message)
       \<and> r_status (getStatus t (globals w')) = ''error''
       \<and> r_processingError (getStatus t (globals w')) = Some msg"
proof -
  let ?ss = "stages cwd"
  let ?p = "?ss ! (k - 1)"
  have len: "length ?ss = 5" by (rule length_stages)
  have split: "?ss = take (k - 1) ?ss @ ?p # drop k ?ss"
    using k len id_take_nth_drop [of "k - 1" ?ss] by simp
  have pre: "\<forall>p \<in> set (take (k - 1) ?ss). env p = [Close (Some 0)]"
    using ok k len by (auto simp: in_set_conv_nth)
  let ?w1 = "w\<lparr>globals := startRun now (globals w)\<rparr>"
  let ?w2 = "?w1\<lparr>spawned := spawned ?w1 @ take (k - 1) ?ss\<rparr>"
  have run: "w' = runChain env (?p # drop k ?ss) ?w2"
    unfolding w'_def runPythonScripts_runChain
    using runChain_success_prefix [OF pre, of "?p # drop k ?ss" ?w1] split by simp
  have tk: "take k ?ss = take (k - 1) ?ss @ [?p]"
    using k len take_Suc_conv_app_nth [of "k - 1" ?ss] by simp
  have sp: "spawned w' = spawned w @ take k ?ss"
    unfolding run using runChain_failure(1) [of env ?p "drop k ?ss" ?w2] bad tk by simp
  have np: "\<not> isProcessing (globals w')"
    unfolding run using runChain_failure(2) [of env ?p "drop k ?ss" ?w2] bad by simp
  have er: "processingError (globals w') = Some msg"
    unfolding run msg_def using runChain_failure(3) [of env ?p "drop k ?ss" ?w2] bad by simp
  have nxt: "k < 5 \<longrightarrow> ?ss ! k \<notin> set (take k ?ss)"
  proof
    assume "k < 5"
    then show "?ss ! k \<notin> set (take k ?ss)"
      using distinct_stages [of cwd] len
      by (auto simp: in_set_conv_nth nth_eq_iff_index_eq)
  qed
  have "k - 1 < length stageNames" using k by (simp add: stageNames_def)
  moreover have "\<forall>n \<in> set stageNames. CHR ''/'' \<notin> set n" by (simp add: stageNames_def)
  ultimately have nosl: "CHR ''/'' \<notin> set (stageNames ! (k - 1))"
    and pp: "?p = path_join cwd (stageNames ! (k - 1))"
    by (simp_all add: stages_names)
  have nm: "includesStr msg (stageNames ! (k - 1))"
    unfolding msg_def using nosl pp by (simp add: failureMessage_names)
  have bn: "basename ?p = stageNames ! (k - 1)"
    using nosl pp by (simp add: basename_path_join)
  have tx: "case last (env ?p) of
            Close code \<Rightarrow>
              msg = ''Script '' @ stageNames ! (k - 1) @ '' failed with exit code '' @ showCode code
          | Error message \<Rightarrow>
              msg = ''Failed to start '' @ stageNames ! (k - 1) @ '': '' @ message"
    unfolding msg_def using bn
    by (cases "last (env ?p)") (simp_all add: exitMessage_def startMessage_def)
  have st: "r_status (getStatus t (globals w')) = ''error''"
    using np er failureMessage_nonempty by (simp add: getStatus_def truthy_def msg_def)
  have re: "r_processingError (getStatus t (globals w')) = Some msg"
    using er by (simp add: getStatus_def)
  from sp nxt np er nm tx st re show ?thesis by blast
qed

theorem stage_failure_stops_pipeline_witness:
  "runPythonScripts
     (\<lambda>p. if p = ''/srv/export_geojson.py'' then [Close (Some 3)] else [Close (Some 0)])
     ''/srv'' 1000 \<lparr>globals = idle, spawned = []\<rparr>
   = \<lparr>globals = \<lparr>isProcessing = False, processingStartTime = Some 1000,
                  processingError = Some ''Script export_geojson.py failed with exit code 3''\<rparr>,
      spawned = [''/srv/cleaning2.py'', ''/srv/cleanup_files.py'', ''/srv/export_geojson.py'']\<rparr>
   \<and> includesStr ''Script export_geojson.py failed with exit code 3'' ''export_geojson.py''
   \<and> r_status (getStatus 7000
        \<lparr>isProcessing = False, processingStartTime = Some 1000,
          processingError = Some ''Script export_geojson.py failed with exit code 3''\<rparr>) = ''error''"
proof -
  let ?env = "\<lambda>p. if p = ''/srv/export_geojson.py'' then [Close (Some 3)] else [Close (Some (0::int))]"
  let ?w = "\<lparr>globals = idle, spawned = []\<rparr>"
  let ?w' = "runPythonScripts ?env ''/srv'' 1000 ?w"
  let ?msg = "''Script export_geojson.py failed with exit code 3''"
  have st: "stages ''/srv'' = [''/srv/cleaning2.py'', ''/srv/cleanup_files.py'',
      ''/srv/export_geojson.py'', ''/srv/cluster_hdbscan.py'', ''/srv/mobile_cluster_fetch.py'']"
    by (simp add: stages_def script1_def script2_def script3_def cleanupScript_def
        uploadScript_def path_join_def)
  have third: "stages ''/srv'' ! 2 = ''/srv/export_geojson.py''"
    by (simp add: st)
  have ok: "\<forall>j < (3::nat) - 1. ?env (stages ''/srv'' ! j) = [Close (Some 0)]"
    by (simp add: st less_Suc_eq numeral_2_eq_2)
  have bad: "?env (stages ''/srv'' ! (3 - 1)) \<noteq> []"
    "Close (Some 0) \<notin> set (?env (stages ''/srv'' ! (3 - 1)))"
    by (simp_all add: third)
  have m: "failureMessage (stages ''/srv'' ! (3 - 1)) (last (?env (stages ''/srv'' ! (3 - 1)))) = ?msg"
  proof -
    have "failureMessage ''/srv/export_geojson.py'' (Close (Some 3)) = ?msg"
      by code_simp
    then show ?thesis by (simp add: third)
  qed
  note t = stage_failure_stops_pipeline [of 3 ?env "''/srv''", OF _ _ ok bad, of 1000 ?w 7000]
  from t have sp: "spawned ?w' = [''/srv/cleaning2.py'', ''/srv/cleanup_files.py'',
      ''/srv/export_geojson.py'']"
    by (simp add: st)
  from t have np: "\<not> isProcessing (globals ?w')" by simp
  from t m have er: "processingError (globals ?w') = Some ?msg" by simp
  from t m have inc: "includesStr ?msg ''export_geojson.py''"
    by (simp add: stageNames_def)
  from t m have rs: "r_status (getStatus 7000 (globals ?w')) = ''error''" by simp
  have tm: "processingStartTime (globals ?w') = Some 1000"
    by code_simp
  have g: "globals ?w' = \<lparr>isProcessing = False, processingStartTime = Some 1000,
      processingError = Some ?msg\<rparr>"
    using np er tm by (cases "globals ?w'") simp
  have w: "?w' = \<lparr>globals = globals ?w', spawned = spawned ?w'\<rparr>"
    by simp
  from w g sp have "?w' = \<lparr>globals = \<lparr>isProcessing = False, processingStartTime = Some 1000,
      processingError = Some ?msg\<rparr>, spawned = [''/srv/cleaning2.py'', ''/srv/cleanup_files.py'',
      ''/srv/export_geojson.py'']\<rparr>"
    by simp
  with inc rs g show ?thesis by simp
qed

section \<open>Properties of the sanitizer\<close>

lemma hasDotDot_simps [simp]:
  "hasDotDot [] = False"
  "hasDotDot [a] = False"
  "hasDotDot (a # b # cs) = ((a = CHR ''.'' \<and> b = CHR ''.'') \<or> hasDotDot (b # cs))"
  by (auto simp: hasDotDot_def startsWith_def)

lemma removeDotDot_head:
  "b \<noteq> CHR ''.'' \<Longrightarrow> removeDotDot (b # cs) = b # removeDotDot cs"
  by (cases cs) auto

lemma hasDotDot_Cons_nondot: "a \<noteq> CHR ''.'' \<Longrightarrow> hasDotDot (a # s) = hasDotDot s"
  by (cases s) auto

lemma hasDotDot_Cons_dot: "hasDotDot (CHR ''.'' # s) = (startsWith s ''.'' \<or> hasDotDot s)"
  by (cases s) (auto simp: startsWith_def)

lemma hasDotDot_Cons:
  "hasDotDot (a # s) = (if a = CHR ''.'' then startsWith s ''.'' \<or> hasDotDot s else hasDotDot s)"
  by (simp add: hasDotDot_Cons_dot hasDotDot_Cons_nondot)

text \<open>The first step leaves no two dots side by side.\<close>

lemma removeDotDot_clean: "\<not> hasDotDot (removeDotDot s)"
proof (induction s rule: removeDotDot.induct)
  case (1 a b cs)
  show ?case
  proof (cases "a = CHR ''.'' \<and> b = CHR ''.''")
    case True
    with 1 show ?thesis by simp
  next
    case False
    note nf = False
    show ?thesis
    proof (cases "a = CHR ''.''")
      case True
      with nf have nb: "b \<noteq> CHR ''.''" by simp
      then have "removeDotDot (b # cs) = b # removeDotDot cs" by (rule removeDotDot_head)
      with 1(2) nf True nb show ?thesis by simp
    next
      case False
      with 1(2) nf show ?thesis by (simp add: hasDotDot_Cons_nondot)
    qed
  qed
qed simp_all

lemma removeDotDot_id: "\<not> hasDotDot s \<Longrightarrow> removeDotDot s = s"
  by (induction s rule: removeDotDot.induct) auto

lemma startsWith_dot_map:
  "(\<And>c. (f c = CHR ''.'') = (c = CHR ''.'')) \<Longrightarrow> startsWith (map f s) ''.'' = startsWith s ''.''"
  by (cases s) (simp_all add: startsWith_def)

lemma hasDotDot_map:
  assumes "\<And>c. (f c = CHR ''.'') = (c = CHR ''.'')"
  shows "hasDotDot (map f s) = hasDotDot s"
proof (induction s)
  case Nil
  show ?case by simp
next
  case (Cons a s)
  show ?case
    using Cons assms startsWith_dot_map [of f s, OF assms]
    by (simp only: list.map hasDotDot_Cons)
qed

lemma hasDotDot_replaceUnsafe: "hasDotDot (replaceUnsafe s) = hasDotDot s"
  unfolding replaceUnsafe_def by (rule hasDotDot_map) (auto simp: isSafeChar_def Let_def)

lemma replaceUnsafe_safe: "list_all isSafeChar (replaceUnsafe s)"
  by (induction s) (auto simp: replaceUnsafe_def isSafeChar_def)

lemma replaceUnsafe_id: "list_all isSafeChar s \<Longrightarrow> replaceUnsafe s = s"
  by (induction s) (auto simp: replaceUnsafe_def)

lemma hasDotDot_prefixHidden: "hasDotDot (prefixHidden s) = hasDotDot s"
  by (simp add: prefixHidden_def hasDotDot_Cons_nondot)

lemma prefixHidden_safe: "list_all isSafeChar s \<Longrightarrow> list_all isSafeChar (prefixHidden s)"
  by (simp add: prefixHidden_def isSafeChar_def)

lemma prefixHidden_not_hidden: "\<not> startsWith (prefixHidden s) ''.''"
  by (simp add: prefixHidden_def startsWith_def)

lemma sanitize_cleaned: "sanitizeFileName x = limitLength (cleaned x)"
  by (simp add: sanitizeFileName_def cleaned_def)

lemma cleaned_fixed:
  "\<not> hasDotDot s \<Longrightarrow> list_all isSafeChar s \<Longrightarrow> \<not> startsWith s ''.'' \<Longrightarrow> cleaned s = s"
  by (simp add: cleaned_def removeDotDot_id replaceUnsafe_id prefixHidden_def)

lemma cleaned_props:
  "\<not> hasDotDot (cleaned x)" "list_all isSafeChar (cleaned x)" "\<not> startsWith (cleaned x) ''.''"
  by (simp_all add: cleaned_def hasDotDot_prefixHidden hasDotDot_replaceUnsafe removeDotDot_clean
      prefixHidden_safe replaceUnsafe_safe prefixHidden_not_hidden)

text \<open>
  As long as the length limit does not cut the name (the name is at most 200 code units
  after the first three steps), the result has no two dots in a row and sanitizing it again
  changes nothing.
\<close>

lemma sanitize_short_no_dotdot:
  "length (cleaned x) \<le> 200 \<Longrightarrow> \<not> includesStr (sanitizeFileName x) ''..''"
  using cleaned_props(1) [of x] by (simp add: sanitize_cleaned limitLength_def hasDotDot_def)

lemma sanitize_short_idempotent:
  assumes "length (cleaned x) \<le> 200"
  shows "sanitizeFileName (sanitizeFileName x) = sanitizeFileName x"
proof -
  have s: "sanitizeFileName x = cleaned x"
    using assms by (simp add: sanitize_cleaned limitLength_def)
  have "cleaned (cleaned x) = cleaned x"
    using cleaned_props [of x] by (rule cleaned_fixed)
  then show ?thesis
    using assms by (simp add: s sanitize_cleaned limitLength_def)
qed

lemma count_dots_hasDotDot:
  "hasDotDot s \<Longrightarrow> 1 < length (filter (\<lambda>c. c = CHR ''.'') s)"
  by (induction s rule: removeDotDot.induct) (auto split: if_splits)

lemma dotdot_rejected_before_sanitizing:
  "includesStr (file_name f) ''..'' \<Longrightarrow> MultipleExtensions \<in> set (validateFile f)"
  using count_dots_hasDotDot [of "file_name f"]
  by (simp add: validateFile_def Let_def hasDotDot_def)

lemma lastIndexOf_last_dot:
  "c \<notin> set ys \<Longrightarrow> lastIndexOf (xs @ c # ys) c = int (length xs)"
  by (simp add: lastIndexOf_def lastIndexOfFrom_append lastIndexOfFrom_absent)

lemma lastIndexOf_none: "c \<notin> set s \<Longrightarrow> lastIndexOf s c = - 1"
  by (simp add: lastIndexOf_def lastIndexOfFrom_absent)

lemma one_dot_split:
  "length (filter (\<lambda>c. c = CHR ''.'') s) = 1 \<Longrightarrow>
     \<exists>xs ys. s = xs @ CHR ''.'' # ys \<and> CHR ''.'' \<notin> set xs \<and> CHR ''.'' \<notin> set ys"
proof (induction s)
  case Nil
  then show ?case by simp
next
  case (Cons a s)
  show ?case
  proof (cases "a = CHR ''.''")
    case True
    with Cons.prems have "filter (\<lambda>c. c = CHR ''.'') s = []" by simp
    then have "CHR ''.'' \<notin> set s" by (auto simp: filter_empty_conv)
    with True have "a # s = [] @ CHR ''.'' # s \<and> CHR ''.'' \<notin> set [] \<and> CHR ''.'' \<notin> set s"
      by simp
    then show ?thesis by blast
  next
    case False
    with Cons obtain xs ys where "s = xs @ CHR ''.'' # ys" "CHR ''.'' \<notin> set xs" "CHR ''.'' \<notin> set ys"
      by auto
    with False have "a # s = (a # xs) @ CHR ''.'' # ys \<and> CHR ''.'' \<notin> set (a # xs) \<and> CHR ''.'' \<notin> set ys"
      by simp
    then show ?thesis by blast
  qed
qed

lemma no_dots_no_dotdot: "CHR ''.'' \<notin> set s \<Longrightarrow> \<not> hasDotDot s"
  by (induction s rule: removeDotDot.induct) auto

lemma one_dot_no_dotdot:
  "CHR ''.'' \<notin> set xs \<Longrightarrow> CHR ''.'' \<notin> set ys \<Longrightarrow> \<not> hasDotDot (xs @ CHR ''.'' # ys)"
proof (induction xs)
  case Nil
  then show ?case
    by (cases ys) (auto simp: hasDotDot_Cons startsWith_def no_dots_no_dotdot)
next
  case (Cons a xs)
  then have "a \<noteq> CHR ''.''" by auto
  with Cons show ?case by (simp add: hasDotDot_Cons_nondot)
qed


lemma toLowerChar_dot: "toLowerChar c = CHR ''.'' \<Longrightarrow> c = CHR ''.''"
proof -
  assume a: "toLowerChar c = CHR ''.''"
  define n where "n = (of_char c :: nat)"
  show ?thesis
  proof (cases "(65 \<le> n \<and> n \<le> 90) \<or> (192 \<le> n \<and> n \<le> 222 \<and> n \<noteq> 215)")
    case True
    then have "toLowerChar c = char_of (n + 32)"
      by (simp add: toLowerChar_def Let_def n_def)
    with a have "(of_char (char_of (n + 32) :: char) :: nat) = of_char CHR ''.''" by simp
    with True show ?thesis by auto
  next
    case False
    then have "toLowerChar c = c"
      by (auto simp: toLowerChar_def Let_def n_def)
    with a show ?thesis by simp
  qed
qed

lemma validated_name_shape:
  assumes "validateFile f = []"
  shows "\<exists>xs ys. file_name f = xs @ CHR ''.'' # ys \<and> CHR ''.'' \<notin> set xs \<and> CHR ''.'' \<notin> set ys
           \<and> xs \<noteq> [] \<and> length ys \<le> 4"
proof -
  let ?s = "file_name f"
  let ?ext = "toLowerCase (substringFrom ?s (lastIndexOf ?s CHR ''.''))"
  from assms have ext: "?ext = ''.xlsx'' \<or> ?ext = ''.xls''"
    and cnt: "length (filter (\<lambda>c. c = CHR ''.'') ?s) \<le> 1"
    and hid: "\<not> startsWith ?s ''.''"
    by (auto simp: validateFile_def Let_def ALLOWED_EXTENSIONS_def split: if_splits)
  have "CHR ''.'' \<in> set ?s"
  proof (rule ccontr)
    assume n: "CHR ''.'' \<notin> set ?s"
    then have "?ext = toLowerCase ?s"
      by (simp add: lastIndexOf_none substringFrom_def clampIndex_def)
    with ext have "CHR ''.'' \<in> set (toLowerCase ?s)" by auto
    then obtain c where "c \<in> set ?s" "toLowerChar c = CHR ''.''"
      by (auto simp: toLowerCase_def)
    with n show False using toLowerChar_dot by blast
  qed
  then have "filter (\<lambda>c. c = CHR ''.'') ?s \<noteq> []"
    by (auto simp: filter_empty_conv)
  with cnt have "length (filter (\<lambda>c. c = CHR ''.'') ?s) = 1"
    by (cases "filter (\<lambda>c. c = CHR ''.'') ?s") auto
  then obtain xs ys where sp: "?s = xs @ CHR ''.'' # ys" "CHR ''.'' \<notin> set xs" "CHR ''.'' \<notin> set ys"
    using one_dot_split by blast
  have "substringFrom ?s (lastIndexOf ?s CHR ''.'') = CHR ''.'' # ys"
    using sp by (simp add: lastIndexOf_last_dot substringFrom_def clampIndex_def)
  with ext have e: "toLowerCase (CHR ''.'' # ys) = ''.xlsx'' \<or> toLowerCase (CHR ''.'' # ys) = ''.xls''"
    by simp
  have "length (toLowerCase (CHR ''.'' # ys)) = Suc (length ys)"
    by (simp add: toLowerCase_def)
  with e have "Suc (length ys) = length ''.xlsx'' \<or> Suc (length ys) = length ''.xls''"
    by metis
  then have ly: "length ys \<le> 4" by auto
  have "xs \<noteq> []" using hid sp(1) by (auto simp: startsWith_def)
  with sp ly show ?thesis by blast
qed


lemma replaceUnsafe_dot: "CHR ''.'' \<in> set (replaceUnsafe s) \<longleftrightarrow> CHR ''.'' \<in> set s"
  by (induction s) (auto simp: replaceUnsafe_def isSafeChar_def Let_def)

lemma replaceUnsafe_append: "replaceUnsafe (xs @ ys) = replaceUnsafe xs @ replaceUnsafe ys"
  by (simp add: replaceUnsafe_def)

lemma replaceUnsafe_dot_Cons: "replaceUnsafe (CHR ''.'' # ys) = CHR ''.'' # replaceUnsafe ys"
  by (simp add: replaceUnsafe_def isSafeChar_def)

lemma cleaned_one_dot:
  assumes "CHR ''.'' \<notin> set xs" "CHR ''.'' \<notin> set ys" "xs \<noteq> []"
  shows "cleaned (xs @ CHR ''.'' # ys) = replaceUnsafe xs @ CHR ''.'' # replaceUnsafe ys"
proof -
  have "removeDotDot (xs @ CHR ''.'' # ys) = xs @ CHR ''.'' # ys"
    using assms by (simp add: removeDotDot_id one_dot_no_dotdot)
  moreover have "\<not> startsWith (replaceUnsafe xs @ CHR ''.'' # replaceUnsafe ys) ''.''"
  proof -
    from assms(3) obtain a as where x: "xs = a # as" by (cases xs) auto
    with assms(1) have "a \<noteq> CHR ''.''" by auto
    then have "(if isSafeChar a then a else CHR ''_'') \<noteq> CHR ''.''" by simp
    then show ?thesis by (simp add: x replaceUnsafe_def startsWith_def)
  qed
  ultimately show ?thesis
    by (simp add: cleaned_def replaceUnsafe_append replaceUnsafe_dot_Cons prefixHidden_def)
qed

lemma limitLength_one_dot:
  assumes "CHR ''.'' \<notin> set ys" "length ys \<le> 4" "200 < length (xs @ CHR ''.'' # ys)"
  shows "limitLength (xs @ CHR ''.'' # ys) = take (199 - length ys) xs @ CHR ''.'' # ys"
proof -
  let ?s = "xs @ CHR ''.'' # ys"
  have e: "substringFrom ?s (lastIndexOf ?s CHR ''.'') = CHR ''.'' # ys"
    using assms(1) by (simp add: lastIndexOf_last_dot substringFrom_def clampIndex_def)
  have k: "nat (200 - int (length (CHR ''.'' # ys))) = 199 - length ys"
    using assms(2) by simp
  have lx: "199 - length ys \<le> length xs"
    using assms(3) by simp
  have "substring ?s 0 (200 - int (length (CHR ''.'' # ys))) = take (199 - length ys) xs"
  proof -
    have "clampIndex ?s (200 - int (length (CHR ''.'' # ys))) = 199 - length ys"
      using assms(2,3) by (simp add: clampIndex_def)
    moreover have "clampIndex ?s 0 = 0" by (simp add: clampIndex_def)
    ultimately show ?thesis using lx by (simp add: substring_def Let_def)
  qed
  with e assms(3) show ?thesis
    by (simp add: limitLength_def Let_def)
qed

text \<open>
  The names that reach the sanitizer in the client passed \<open>validateFile\<close>: they have one
  dot, not in front, and an extension of at most four letters. On those the sanitizer
  leaves no two dots in a row and is idempotent; a name that contains \<open>..\<close> is rejected
  before the sanitizer is called.
\<close>

lemma sanitize_validated_name:
  assumes "validateFile f = []"
  shows "\<not> includesStr (sanitizeFileName (file_name f)) ''..''"
    and "sanitizeFileName (sanitizeFileName (file_name f)) = sanitizeFileName (file_name f)"
proof -
  from validated_name_shape [OF assms] obtain xs ys where
    sp: "file_name f = xs @ CHR ''.'' # ys" "CHR ''.'' \<notin> set xs" "CHR ''.'' \<notin> set ys"
      "xs \<noteq> []" "length ys \<le> 4"
    by blast
  let ?xs = "replaceUnsafe xs" and ?ys = "replaceUnsafe ys"
  have c: "cleaned (file_name f) = ?xs @ CHR ''.'' # ?ys"
    using sp by (simp add: cleaned_one_dot)
  have nd: "CHR ''.'' \<notin> set ?xs" "CHR ''.'' \<notin> set ?ys"
    using sp by (simp_all add: replaceUnsafe_dot)
  have ly: "length ?ys \<le> 4" using sp(5) by (simp add: replaceUnsafe_def)
  have nx: "?xs \<noteq> []" using sp(4) by (simp add: replaceUnsafe_def)
  have both: "\<not> includesStr (sanitizeFileName (file_name f)) ''..''
      \<and> sanitizeFileName (sanitizeFileName (file_name f)) = sanitizeFileName (file_name f)"
  proof (cases "length (cleaned (file_name f)) \<le> 200")
    case True
    then show ?thesis
      using sanitize_short_no_dotdot sanitize_short_idempotent by blast
  next
    case False
    then have long: "200 < length (?xs @ CHR ''.'' # ?ys)" by (simp add: c)
    let ?r = "take (199 - length ?ys) ?xs @ CHR ''.'' # ?ys"
    have r: "sanitizeFileName (file_name f) = ?r"
      using limitLength_one_dot [OF nd(2) ly long] by (simp add: sanitize_cleaned c)
    have ndt: "CHR ''.'' \<notin> set (take (199 - length ?ys) ?xs)"
      using nd(1) by (auto dest: in_set_takeD)
    have h: "\<not> hasDotDot ?r"
      using ndt nd(2) by (rule one_dot_no_dotdot)
    then have g1: "\<not> includesStr (sanitizeFileName (file_name f)) ''..''"
      by (simp add: r hasDotDot_def)
    have safe: "list_all isSafeChar ?r"
    proof -
      have "list_all isSafeChar (?xs @ CHR ''.'' # ?ys)"
        using cleaned_props(2) [of "file_name f"] by (simp add: c)
      then show ?thesis by (auto simp: list_all_iff dest: in_set_takeD)
    qed
    have tne: "take (199 - length ?ys) ?xs \<noteq> []"
      using nx ly by (cases ?xs) auto
    have nh: "\<not> startsWith ?r ''.''"
    proof -
      from tne obtain a as where t: "take (199 - length ?ys) ?xs = a # as"
        by (cases "take (199 - length ?ys) ?xs") auto
      with ndt have "a \<noteq> CHR ''.''" by auto
      then show ?thesis by (simp add: t startsWith_def)
    qed
    have len: "length ?r = 200"
      using long ly by simp
    have "cleaned ?r = ?r" using h safe nh by (rule cleaned_fixed)
    then have "sanitizeFileName ?r = ?r"
      using len by (simp add: sanitize_cleaned limitLength_def)
    then have "sanitizeFileName (sanitizeFileName (file_name f)) = sanitizeFileName (file_name f)"
      by (simp add: r)
    with g1 show ?thesis by blast
  qed
  from both show "\<not> includesStr (sanitizeFileName (file_name f)) ''..''"
    and "sanitizeFileName (sanitizeFileName (file_name f)) = sanitizeFileName (file_name f)"
    by simp_all
qed

text \<open>Whatever the name, the result is made of letters, digits, dots, underscores and dashes.\<close>

lemma set_limitLength: "set (limitLength s) \<subseteq> set s"
  by (auto simp: limitLength_def Let_def substring_def substringFrom_def
      dest: in_set_takeD in_set_dropD)

lemma sanitize_safe: "list_all isSafeChar (sanitizeFileName x)"
  using cleaned_props(2) [of x] set_limitLength [of "cleaned x"]
  by (auto simp: sanitize_cleaned list_all_iff)

lemma sample_short_name:
  "includesStr ''..a b/..c...d'' ''..''" "length (cleaned ''..a b/..c...d'') \<le> 200"
  "sanitizeFileName ''..a b/..c...d'' = ''a_b_c.d''"
  by code_simp+

lemma sample_dotdot_name: "includesStr ''../x.xlsx'' ''..''"
  by code_simp

text \<open>
  Claim C5, as amended. The sanitizer is idempotent on every name that reaches it, that
  is, on the name of every file that passed \<open>validateFile\<close> (its one call comes after that
  check), so the name \<open>onDrop\<close> posts is a fixed point of the sanitizer; and it is
  idempotent on every name that has at most 200 code units before the length limit.
\<close>

theorem sanitize_idempotent_on_received_names:
  "(validateFile f = [] \<longrightarrow>
      sanitizeFileName (sanitizeFileName (file_name f)) = sanitizeFileName (file_name f))
   \<and> (onDropFile f = Inr g \<longrightarrow> sanitizeFileName (file_name g) = file_name g)
   \<and> (length (cleaned x) \<le> 200 \<longrightarrow>
        sanitizeFileName (sanitizeFileName x) = sanitizeFileName x)"
proof -
  have a: "validateFile f = [] \<longrightarrow>
      sanitizeFileName (sanitizeFileName (file_name f)) = sanitizeFileName (file_name f)"
    using sanitize_validated_name(2) by blast
  have b: "onDropFile f = Inr g \<longrightarrow> sanitizeFileName (file_name g) = file_name g"
  proof
    assume d: "onDropFile f = Inr g"
    then have v: "validateFile f = []"
      by (auto simp: onDropFile_def Let_def split: if_splits)
    from d have "file_name g = sanitizeFileName (file_name f)"
      by (auto simp: onDropFile_def Let_def split: if_splits)
    with sanitize_validated_name(2) [OF v] show "sanitizeFileName (file_name g) = file_name g"
      by simp
  qed
  have c: "length (cleaned x) \<le> 200 \<longrightarrow>
      sanitizeFileName (sanitizeFileName x) = sanitizeFileName x"
    using sanitize_short_idempotent by blast
  from a b c show ?thesis by blast
qed

theorem sanitize_idempotent_on_received_names_witness:
  "validateFile \<lparr>file_name = ''Accidents 2024.xlsx'', file_size = 2048, file_type = []\<rparr> = []
   \<and> sanitizeFileName (sanitizeFileName ''Accidents 2024.xlsx'')
       = sanitizeFileName ''Accidents 2024.xlsx''
   \<and> onDropFile \<lparr>file_name = ''Accidents 2024.xlsx'', file_size = 2048, file_type = []\<rparr>
       = Inr \<lparr>file_name = ''Accidents_2024.xlsx'', file_size = 2048, file_type = []\<rparr>
   \<and> sanitizeFileName ''Accidents_2024.xlsx'' = ''Accidents_2024.xlsx''
   \<and> length (cleaned ''..a b/..c...d'') \<le> 200
   \<and> sanitizeFileName (sanitizeFileName ''..a b/..c...d'') = sanitizeFileName ''..a b/..c...d''"
proof -
  let ?f = "\<lparr>file_name = ''Accidents 2024.xlsx'', file_size = 2048, file_type = []\<rparr>"
  let ?g = "\<lparr>file_name = ''Accidents_2024.xlsx'', file_size = 2048, file_type = []\<rparr>"
  note t = sanitize_idempotent_on_received_names [of ?f ?g "''..a b/..c...d''"]
  have v: "validateFile ?f = []" by (rule validateFile_good_file)
  have d: "onDropFile ?f = Inr ?g" by (rule onDropFile_good_file)
  have l: "length (cleaned ''..a b/..c...d'') \<le> 200" by (rule sample_short_name(2))
  from t v have "sanitizeFileName (sanitizeFileName (file_name ?f)) = sanitizeFileName (file_name ?f)"
    by blast
  then have 1: "sanitizeFileName (sanitizeFileName ''Accidents 2024.xlsx'')
      = sanitizeFileName ''Accidents 2024.xlsx''"
    by simp
  from t d have "sanitizeFileName (file_name ?g) = file_name ?g" by blast
  then have 2: "sanitizeFileName ''Accidents_2024.xlsx'' = ''Accidents_2024.xlsx''"
    by simp
  from t l have 3: "sanitizeFileName (sanitizeFileName ''..a b/..c...d'')
      = sanitizeFileName ''..a b/..c...d''"
    by blast
  from v d l 1 2 3 show ?thesis by blast
qed

text \<open>
  Claim C5 as stated, for every name, fails on the function taken alone, where the length
  limit cuts the stem just after a dot. The name of 194 letters \<open>a\<close> followed by \<open>.b.xlsx\<close>
  has 201 code units; the limit keeps its first 195, which end in a dot, and appends
  \<open>.xlsx\<close>. The result holds two dots in a row, and sanitizing it again removes them. The
  name has two dots, so \<open>validateFile\<close> rejects it and \<open>onDrop\<close> never sanitizes it.
\<close>

theorem sanitize_not_idempotent_at_long_name:
  "sanitizeFileName (replicate 194 CHR ''a'' @ ''.b.xlsx'') = replicate 194 CHR ''a'' @ ''..xlsx''
   \<and> sanitizeFileName (sanitizeFileName (replicate 194 CHR ''a'' @ ''.b.xlsx''))
       = replicate 194 CHR ''a'' @ ''xlsx''
   \<and> sanitizeFileName (sanitizeFileName (replicate 194 CHR ''a'' @ ''.b.xlsx''))
       \<noteq> sanitizeFileName (replicate 194 CHR ''a'' @ ''.b.xlsx'')"
  by code_simp

text \<open>
  Claim C6, as amended. A name that contains \<open>..\<close> never reaches the sanitizer: \<open>validateFile\<close>
  reports it for its multiple extensions and \<open>onDrop\<close> returns with the error list. For
  every name that does reach the sanitizer the result contains no \<open>..\<close>; and for every
  name that contains \<open>..\<close> and has at most 200 code units before the length limit, the
  result contains no \<open>..\<close>.
\<close>

theorem sanitized_name_has_no_dotdot:
  "(includesStr (file_name f) ''..'' \<longrightarrow>
      MultipleExtensions \<in> set (validateFile f) \<and> onDropFile f = Inl (validateFile f))
   \<and> (validateFile f = [] \<longrightarrow> \<not> includesStr (sanitizeFileName (file_name f)) ''..'')
   \<and> (includesStr x ''..'' \<longrightarrow> length (cleaned x) \<le> 200 \<longrightarrow>
        \<not> includesStr (sanitizeFileName x) ''..'')"
proof -
  have a: "includesStr (file_name f) ''..'' \<longrightarrow>
      MultipleExtensions \<in> set (validateFile f) \<and> onDropFile f = Inl (validateFile f)"
  proof
    assume "includesStr (file_name f) ''..''"
    then have m: "MultipleExtensions \<in> set (validateFile f)"
      by (rule dotdot_rejected_before_sanitizing)
    then have "validateFile f \<noteq> []" by auto
    then have "onDropFile f = Inl (validateFile f)"
      by (simp add: onDropFile_def Let_def)
    with m show "MultipleExtensions \<in> set (validateFile f) \<and> onDropFile f = Inl (validateFile f)"
      by simp
  qed
  have b: "validateFile f = [] \<longrightarrow> \<not> includesStr (sanitizeFileName (file_name f)) ''..''"
    using sanitize_validated_name(1) by blast
  have c: "includesStr x ''..'' \<longrightarrow> length (cleaned x) \<le> 200 \<longrightarrow>
      \<not> includesStr (sanitizeFileName x) ''..''"
    using sanitize_short_no_dotdot by blast
  from a b c show ?thesis by blast
qed

theorem sanitized_name_has_no_dotdot_witness:
  "includesStr ''../x.xlsx'' ''..''
   \<and> MultipleExtensions
       \<in> set (validateFile \<lparr>file_name = ''../x.xlsx'', file_size = 2048, file_type = []\<rparr>)
   \<and> validateFile \<lparr>file_name = ''Accidents 2024.xlsx'', file_size = 2048, file_type = []\<rparr> = []
   \<and> \<not> includesStr (sanitizeFileName ''Accidents 2024.xlsx'') ''..''
   \<and> includesStr ''..a b/..c...d'' ''..''
   \<and> length (cleaned ''..a b/..c...d'') \<le> 200
   \<and> \<not> includesStr (sanitizeFileName ''..a b/..c...d'') ''..''"
proof -
  let ?bad = "\<lparr>file_name = ''../x.xlsx'', file_size = 2048, file_type = []\<rparr>"
  let ?f = "\<lparr>file_name = ''Accidents 2024.xlsx'', file_size = 2048, file_type = []\<rparr>"
  note t1 = sanitized_name_has_no_dotdot [of ?bad "''..a b/..c...d''"]
  note t2 = sanitized_name_has_no_dotdot [of ?f "''..a b/..c...d''"]
  have fn: "file_name ?bad = ''../x.xlsx''" by simp
  have i: "includesStr (file_name ?bad) ''..''"
    unfolding fn by (rule sample_dotdot_name)
  have v: "validateFile ?f = []" by (rule validateFile_good_file)
  have s: "includesStr ''..a b/..c...d'' ''..''" by (rule sample_short_name(1))
  have l: "length (cleaned ''..a b/..c...d'') \<le> 200" by (rule sample_short_name(2))
  from t1 i have 1: "MultipleExtensions \<in> set (validateFile ?bad)" by blast
  from t2 v have "\<not> includesStr (sanitizeFileName (file_name ?f)) ''..''" by blast
  then have 2: "\<not> includesStr (sanitizeFileName ''Accidents 2024.xlsx'') ''..''" by simp
  from t2 s l have 3: "\<not> includesStr (sanitizeFileName ''..a b/..c...d'') ''..''" by blast
  have i': "includesStr ''../x.xlsx'' ''..''" by (rule sample_dotdot_name)
  from i' 1 v 2 s l 3 show ?thesis by blast
qed

text \<open>
  Claim C6 as stated, for every name that contains \<open>..\<close>, fails on the function taken
  alone: the name \<open>..\<close>, 195 letters \<open>r\<close>, \<open>.v2.xls\<close> loses its two leading dots in the
  first step, and the length limit then puts the dot that ends the kept stem next to the
  dot of \<open>.xls\<close>.
\<close>

theorem sanitize_keeps_dotdot_at_long_name:
  "includesStr (''..'' @ replicate 195 CHR ''r'' @ ''.v2.xls'') ''..''
   \<and> sanitizeFileName (''..'' @ replicate 195 CHR ''r'' @ ''.v2.xls'')
       = replicate 195 CHR ''r'' @ ''..xls''
   \<and> includesStr (sanitizeFileName (''..'' @ replicate 195 CHR ''r'' @ ''.v2.xls'')) ''..''"
  by code_simp

section \<open>Properties of storage and of the upload route\<close>

text \<open>
  Claim C4, as amended. For every accepted upload (a file is present and the structural
  validation passes) the route answers with status 200 and the body
  \<open>{message, filename}\<close>, which has no field \<open>accepted\<close>, and it starts the pipeline only
  after that response; the response depends on no stage.
\<close>

theorem accepted_upload_responds_then_starts:
  "validateExcelFile opened = Inr validation \<Longrightarrow> valid validation \<Longrightarrow>
     uploadRoute opened (Some file) =
       Inr [Respond 200
              [(''message'', JString ''File validated successfully. Processing started...''),
               (''filename'', JString (filename file))],
            StartPipeline]"
  by (simp add: uploadRoute_def Let_def)

theorem accepted_upload_responds_then_starts_witness:
  "validateExcelFile
     (Opened \<lparr>SheetNames = [''2024''],
              Sheets = [(''2024'', [ALL_REQUIRED_COLUMNS, [''Poblacion'']])]\<rparr>)
     = Inr \<lparr>valid = True, errors = []\<rparr>
   \<and> valid \<lparr>valid = True, errors = []\<rparr>
   \<and> uploadRoute
        (Opened \<lparr>SheetNames = [''2024''],
                 Sheets = [(''2024'', [ALL_REQUIRED_COLUMNS, [''Poblacion'']])]\<rparr>)
        (Some (store ''/srv'' ''Accidents_2024.xlsx''))
       = Inr [Respond 200
                [(''message'', JString ''File validated successfully. Processing started...''),
                 (''filename'', JString ''Accidents_2024.xlsx'')],
              StartPipeline]"
proof -
  let ?wb = "Opened \<lparr>SheetNames = [''2024''],
                     Sheets = [(''2024'', [ALL_REQUIRED_COLUMNS, [''Poblacion'']])]\<rparr>"
  have r: "validateExcelFile ?wb = Inr \<lparr>valid = True, errors = []\<rparr>"
    by (rule valid_sample_workbook)
  have v: "valid \<lparr>valid = True, errors = []\<rparr>"
    by simp
  from accepted_upload_responds_then_starts [OF r v, of "store ''/srv'' ''Accidents_2024.xlsx''"] r v
  show ?thesis by (simp add: store_def storage_filename_def)
qed

text \<open>
  Claim C4 as stated fails: at an accepted upload the body is not
  \<open>{accepted: true, filename}\<close>, and it has no field \<open>accepted\<close> at all.
\<close>

theorem accepted_field_counterexample:
  "validateExcelFile
     (Opened \<lparr>SheetNames = [''2024''],
              Sheets = [(''2024'', [ALL_REQUIRED_COLUMNS, [''Poblacion'']])]\<rparr>)
     = Inr \<lparr>valid = True, errors = []\<rparr>
   \<and> uploadRoute
        (Opened \<lparr>SheetNames = [''2024''],
                 Sheets = [(''2024'', [ALL_REQUIRED_COLUMNS, [''Poblacion'']])]\<rparr>)
        (Some (store ''/srv'' ''Accidents_2024.xlsx''))
       \<noteq> Inr [Respond 200
                 [(''accepted'', JBool True), (''filename'', JString ''Accidents_2024.xlsx'')],
               StartPipeline]
   \<and> map_of [(''message'', JString ''File validated successfully. Processing started...''),
              (''filename'', JString ''Accidents_2024.xlsx'')] ''accepted'' = None"
  by (simp add: valid_sample_workbook uploadRoute_def Let_def)

lemma onDropFile_posts_sanitized:
  "onDropFile f = Inr g \<Longrightarrow> file_name g = sanitizeFileName (file_name f)"
  by (auto simp: onDropFile_def Let_def split: if_splits)

text \<open>
  Claim C9, as amended. The server stores the file in \<open>data\<close> under the working directory,
  under \<open>file.originalname\<close>, the name multer hands to the storage callbacks (the last path
  segment of the name on the request), unchanged: the server applies no sanitizer. For
  an upload from the client's \<open>onDrop\<close> the posted name is the sanitized form of the chosen
  file's name; it holds neither a slash nor a backslash, and stored under it the file has
  the sanitized name.
\<close>

theorem stored_under_originalname:
  "filename (store cwd original) = original
   \<and> path (store cwd original) = path_join (storage_destination cwd) original
   \<and> (onDropFile f = Inr g \<longrightarrow>
        file_name g = sanitizeFileName (file_name f)
        \<and> CHR ''/'' \<notin> set (file_name g) \<and> CHR 0x5C \<notin> set (file_name g)
        \<and> filename (store cwd (file_name g)) = sanitizeFileName (file_name f))"
proof -
  have "filename (store cwd original) = original"
    and "path (store cwd original) = path_join (storage_destination cwd) original"
    by (simp_all add: store_def storage_filename_def)
  moreover have "onDropFile f = Inr g \<longrightarrow>
        file_name g = sanitizeFileName (file_name f)
        \<and> CHR ''/'' \<notin> set (file_name g) \<and> CHR 0x5C \<notin> set (file_name g)
        \<and> filename (store cwd (file_name g)) = sanitizeFileName (file_name f)"
  proof
    assume "onDropFile f = Inr g"
    then have n: "file_name g = sanitizeFileName (file_name f)"
      by (rule onDropFile_posts_sanitized)
    have "\<forall>c \<in> set (file_name g). isSafeChar c"
      using sanitize_safe [of "file_name f"] by (simp add: n list_all_iff)
    moreover have "\<not> isSafeChar CHR ''/''" and "\<not> isSafeChar CHR 0x5C"
      by (simp_all add: isSafeChar_def)
    ultimately have "CHR ''/'' \<notin> set (file_name g)" and "CHR 0x5C \<notin> set (file_name g)"
      by blast+
    with n show "file_name g = sanitizeFileName (file_name f)
        \<and> CHR ''/'' \<notin> set (file_name g) \<and> CHR 0x5C \<notin> set (file_name g)
        \<and> filename (store cwd (file_name g)) = sanitizeFileName (file_name f)"
      by (simp add: store_def storage_filename_def)
  qed
  ultimately show ?thesis by blast
qed

theorem stored_under_originalname_witness:
  "onDropFile \<lparr>file_name = ''Accidents 2024.xlsx'', file_size = 2048, file_type = []\<rparr>
     = Inr \<lparr>file_name = ''Accidents_2024.xlsx'', file_size = 2048, file_type = []\<rparr>
   \<and> filename (store ''/srv'' ''Accidents_2024.xlsx'') = ''Accidents_2024.xlsx''
   \<and> path (store ''/srv'' ''Accidents_2024.xlsx'') = ''/srv/data/Accidents_2024.xlsx''
   \<and> CHR ''/'' \<notin> set ''Accidents_2024.xlsx''
   \<and> filename (store ''/srv'' ''Accidents_2024.xlsx'') = sanitizeFileName ''Accidents 2024.xlsx''"
proof -
  let ?f = "\<lparr>file_name = ''Accidents 2024.xlsx'', file_size = 2048, file_type = []\<rparr>"
  let ?g = "\<lparr>file_name = ''Accidents_2024.xlsx'', file_size = 2048, file_type = []\<rparr>"
  have d: "onDropFile ?f = Inr ?g"
    by (rule onDropFile_good_file)
  note t = stored_under_originalname [of "''/srv''" "''Accidents_2024.xlsx''" ?f ?g]
  from t d have "CHR ''/'' \<notin> set (file_name ?g)
      \<and> filename (store ''/srv'' (file_name ?g)) = sanitizeFileName (file_name ?f)"
    by blast
  then have c: "CHR ''/'' \<notin> set ''Accidents_2024.xlsx''"
    "filename (store ''/srv'' ''Accidents_2024.xlsx'') = sanitizeFileName ''Accidents 2024.xlsx''"
    by simp_all
  from t have a: "filename (store ''/srv'' ''Accidents_2024.xlsx'') = ''Accidents_2024.xlsx''"
    by blast
  from t have b: "path (store ''/srv'' ''Accidents_2024.xlsx'') = ''/srv/data/Accidents_2024.xlsx''"
    by (simp add: storage_destination_def path_join_def)
  from d a b c show ?thesis by blast
qed

lemma sanitize_spaced_name: "sanitizeFileName ''a b.xlsx'' = ''a_b.xlsx''"
  by code_simp

text \<open>
  Claim C9 as stated fails: an upload whose \<open>originalname\<close> is \<open>a b.xlsx\<close> (a name on the
  request with no separator in it) and whose workbook is valid is accepted, and the file
  is stored as \<open>a b.xlsx\<close>, which is not its sanitized form.
\<close>

theorem stored_name_counterexample:
  "uploadRoute
     (Opened \<lparr>SheetNames = [''2024''],
              Sheets = [(''2024'', [ALL_REQUIRED_COLUMNS, [''Poblacion'']])]\<rparr>)
     (Some (store ''/srv'' ''a b.xlsx''))
     = Inr [Respond 200
              [(''message'', JString ''File validated successfully. Processing started...''),
               (''filename'', JString ''a b.xlsx'')],
            StartPipeline]
   \<and> filename (store ''/srv'' ''a b.xlsx'') = ''a b.xlsx''
   \<and> sanitizeFileName ''a b.xlsx'' = ''a_b.xlsx''
   \<and> filename (store ''/srv'' ''a b.xlsx'') \<noteq> sanitizeFileName ''a b.xlsx''"
  by (simp add: valid_sample_workbook uploadRoute_def Let_def store_def storage_filename_def
      storage_destination_def path_join_def sanitize_spaced_name)

end
